theory Spec2Isabelle
  imports Main "HOL-Library.Word"
begin

unbundle bit_operations_syntax

section \<open>Data model (fractal_sync_req_gen.h)\<close>

text \<open>\<^verbatim>\<open>unsigned int\<close> is a 32-bit machine word: arithmetic wraps, comparisons are unsigned.\<close>

type_synonym uint = "32 word"

definition FSYNC_N_CU_X :: uint where "FSYNC_N_CU_X = 4"
definition FSYNC_N_CU_Y :: uint where "FSYNC_N_CU_Y = 4"
definition FSYNC_N_LVL :: uint where "FSYNC_N_LVL = 4"
definition FSYNC_DEFAULT_TH :: uint where "FSYNC_DEFAULT_TH = FSYNC_N_CU_X div 2"

definition abs_diff :: "uint \<Rightarrow> uint \<Rightarrow> uint" where
  "abs_diff x y = (if x > y then x - y else y - x)"

datatype fsync_dir = h_fs_dir | v_fs_dir

datatype fsync_node = null_fs_node | h_fs_node | v_fs_node | hv_fs_node

record fsync_req =
  fs_req_aggr :: uint
  fs_req_id :: uint
  req_node :: fsync_node

record fsync_cu =
  cu_id :: uint
  y_pos :: uint
  x_pos :: uint
  fsync_req :: fsync_req

section \<open>Scalar helpers (fractal_sync_req_gen.c, lines 24-36)\<close>

text \<open>The C function returns \<^verbatim>\<open>pos & 1\<close> converted to \<^verbatim>\<open>bool\<close>: true iff the low bit is set.\<close>

definition fsync_nbr_node :: "uint \<Rightarrow> uint \<Rightarrow> bool" where
  "fsync_nbr_node pos1 pos2 = ((if pos1 < pos2 then pos1 AND 1 else pos2 AND 1) \<noteq> 0)"

definition fsync_same_subtree :: "uint \<Rightarrow> uint \<Rightarrow> uint \<Rightarrow> bool" where
  "fsync_same_subtree pos1 pos2 threshold =
     (if (pos1 < threshold \<and> pos2 < threshold) \<or> (pos1 \<ge> threshold \<and> pos2 \<ge> threshold)
      then True else False)"

text \<open>\<^verbatim>\<open>fsync_update_pos\<close> writes through its pointer and returns \<^verbatim>\<open>threshold/2\<close>:
  the model returns the new position and the returned threshold.\<close>

definition fsync_update_pos :: "uint \<Rightarrow> uint \<Rightarrow> uint \<times> uint" where
  "fsync_update_pos pos threshold =
     ((if pos < threshold then pos else pos - threshold), threshold div 2)"

section \<open>The working array and the pointer arrays\<close>

text \<open>
  The partition engine works on arrays of pointers (\<^verbatim>\<open>fsync_cu_t **\<close>) into one array of
  CUs (\<^verbatim>\<open>temp_cus\<close>).  The array is the store; a pointer \<^verbatim>\<open>&temp_cus[i]\<close> is the index
  \<open>i\<close>; a pointer array together with its element count is a list of indices.
\<close>

type_synonym cu_store = "fsync_cu list"
type_synonym cu_ptrs = "nat list"

text \<open>Lines 38-52: the loop appends each pointer, in order, to \<^verbatim>\<open>l_cus\<close> when its coordinate
  is below the threshold and to \<^verbatim>\<open>h_cus\<close> otherwise; the result is whether both counts are
  positive.\<close>

definition fsync_partition_h_cus :: "cu_store \<Rightarrow> cu_ptrs \<Rightarrow> uint \<Rightarrow> cu_ptrs \<times> cu_ptrs \<times> bool" where
  "fsync_partition_h_cus st cus threshold =
     (let l_cus = filter (\<lambda>p. x_pos (st ! p) < threshold) cus;
          h_cus = filter (\<lambda>p. \<not> x_pos (st ! p) < threshold) cus
      in (l_cus, h_cus, length l_cus > 0 \<and> length h_cus > 0))"

definition fsync_partition_v_cus :: "cu_store \<Rightarrow> cu_ptrs \<Rightarrow> uint \<Rightarrow> cu_ptrs \<times> cu_ptrs \<times> bool" where
  "fsync_partition_v_cus st cus threshold =
     (let l_cus = filter (\<lambda>p. y_pos (st ! p) < threshold) cus;
          h_cus = filter (\<lambda>p. \<not> y_pos (st ! p) < threshold) cus
      in (l_cus, h_cus, length l_cus > 0 \<and> length h_cus > 0))"

text \<open>Lines 54-64: renormalise one coordinate of every CU pointed to.\<close>

definition fsync_update_h_poss :: "cu_store \<Rightarrow> cu_ptrs \<Rightarrow> uint \<Rightarrow> cu_store \<times> uint" where
  "fsync_update_h_poss st cus threshold =
     (fold (\<lambda>p s. s[p := (s ! p)\<lparr>x_pos := fst (fsync_update_pos (x_pos (s ! p)) threshold)\<rparr>]) cus st,
      threshold div 2)"

definition fsync_update_v_poss :: "cu_store \<Rightarrow> cu_ptrs \<Rightarrow> uint \<Rightarrow> cu_store \<times> uint" where
  "fsync_update_v_poss st cus threshold =
     (fold (\<lambda>p s. s[p := (s ! p)\<lparr>y_pos := fst (fsync_update_pos (y_pos (s ! p)) threshold)\<rparr>]) cus st,
      threshold div 2)"

text \<open>Lines 68-73: the body of the loop of \<^verbatim>\<open>fsync_update_cus_req\<close>, on one CU.\<close>

definition fsync_update_req :: "fsync_dir \<Rightarrow> fsync_node \<Rightarrow> bool \<Rightarrow> fsync_cu \<Rightarrow> fsync_cu" where
  "fsync_update_req dir node node_active c =
     (let r0 = fsync_req c;
          r1 = r0\<lparr>fs_req_aggr := push_bit 1 (fs_req_aggr r0)\<rparr>;
          r2 = r1\<lparr>fs_req_aggr := fs_req_aggr r1 OR (if node_active then 1 else 0)\<rparr>;
          r3 = (if req_node r2 = null_fs_node \<and> node_active
                then r2\<lparr>req_node := node, fs_req_id := (if dir = h_fs_dir then 0 else 1)\<rparr>
                else r2)
      in c\<lparr>fsync_req := r3\<rparr>)"

definition fsync_update_cus_req ::
  "cu_store \<Rightarrow> cu_ptrs \<Rightarrow> fsync_dir \<Rightarrow> fsync_node \<Rightarrow> bool \<Rightarrow> cu_store" where
  "fsync_update_cus_req st cus dir node node_active =
     fold (\<lambda>p s. s[p := fsync_update_req dir node node_active (s ! p)]) cus st"

section \<open>The partition engine (lines 77-153)\<close>

text \<open>
  \<^verbatim>\<open>malloc\<close> may return \<^verbatim>\<open>NULL\<close>.  The allocator is a parameter \<open>alloc\<close>: the \<open>k\<close>-th call of
  \<^verbatim>\<open>malloc\<close> of a run succeeds iff \<open>alloc k\<close>; the number of calls made so far is threaded
  through the recursion together with the store.  The result is the store, the call count
  and the returned flag.
\<close>

function fsync_partition_subtree ::
  "(nat \<Rightarrow> bool) \<Rightarrow> nat \<Rightarrow> cu_store \<Rightarrow> cu_ptrs \<Rightarrow> fsync_dir \<Rightarrow> uint \<Rightarrow> fsync_node
     \<Rightarrow> cu_store \<times> nat \<times> bool" where
  "fsync_partition_subtree alloc k st cus dir threshold node =
    (if threshold < 1 then (st, k, False)
     else if node = hv_fs_node then
       (if \<not> alloc k \<or> \<not> alloc (k + 1) \<or> \<not> alloc (k + 2) \<or> \<not> alloc (k + 3)
        then (st, k + 4, False)
        else
          (case fsync_partition_h_cus st cus threshold of (h_l_cus, h_h_cus, h_node_active) \<Rightarrow>
           case fsync_partition_v_cus st cus threshold of (v_l_cus, v_h_cus, v_node_active) \<Rightarrow>
           let node_active = (h_node_active \<and> v_node_active) in
           if node_active \<or> (\<not> h_node_active \<and> \<not> v_node_active) then
             (if dir = h_fs_dir then
                (let st1 = fsync_update_cus_req st v_l_cus dir node node_active;
                     st2 = fsync_update_cus_req st1 v_h_cus dir node node_active;
                     st3 = fst (fsync_update_v_poss st2 v_h_cus threshold)
                 in case fsync_partition_subtree alloc (k + 4) st3 v_l_cus h_fs_dir threshold h_fs_node
                      of (st4, k4, l_subtree_active) \<Rightarrow>
                    case fsync_partition_subtree alloc k4 st4 v_h_cus h_fs_dir threshold h_fs_node
                      of (st5, k5, h_subtree_active) \<Rightarrow>
                    (st5, k5, node_active \<or> l_subtree_active \<or> h_subtree_active))
              else
                (let st1 = fsync_update_cus_req st h_l_cus dir node node_active;
                     st2 = fsync_update_cus_req st1 h_h_cus dir node node_active;
                     st3 = fst (fsync_update_h_poss st2 h_h_cus threshold)
                 in case fsync_partition_subtree alloc (k + 4) st3 h_l_cus v_fs_dir threshold v_fs_node
                      of (st4, k4, l_subtree_active) \<Rightarrow>
                    case fsync_partition_subtree alloc k4 st4 h_h_cus v_fs_dir threshold v_fs_node
                      of (st5, k5, h_subtree_active) \<Rightarrow>
                    (st5, k5, node_active \<or> l_subtree_active \<or> h_subtree_active)))
           else if h_node_active then
             (let st1 = fsync_update_cus_req st v_l_cus dir node node_active;
                  st2 = fsync_update_cus_req st1 v_h_cus dir node node_active;
                  st3 = fst (fsync_update_v_poss st2 v_h_cus threshold)
              in case fsync_partition_subtree alloc (k + 4) st3 v_l_cus h_fs_dir threshold h_fs_node
                   of (st4, k4, l_subtree_active) \<Rightarrow>
                 case fsync_partition_subtree alloc k4 st4 v_h_cus h_fs_dir threshold h_fs_node
                   of (st5, k5, h_subtree_active) \<Rightarrow>
                 (st5, k5, node_active \<or> l_subtree_active \<or> h_subtree_active))
           else
             (let st1 = fsync_update_cus_req st h_l_cus dir node node_active;
                  st2 = fsync_update_cus_req st1 h_h_cus dir node node_active;
                  st3 = fst (fsync_update_h_poss st2 h_h_cus threshold)
              in case fsync_partition_subtree alloc (k + 4) st3 h_l_cus v_fs_dir threshold v_fs_node
                   of (st4, k4, l_subtree_active) \<Rightarrow>
                 case fsync_partition_subtree alloc k4 st4 h_h_cus v_fs_dir threshold v_fs_node
                   of (st5, k5, h_subtree_active) \<Rightarrow>
                 (st5, k5, node_active \<or> l_subtree_active \<or> h_subtree_active))))
     else
       (if \<not> alloc k \<or> \<not> alloc (k + 1) then (st, k + 2, False)
        else
          (case (if dir = h_fs_dir then fsync_partition_h_cus st cus threshold
                 else fsync_partition_v_cus st cus threshold) of (l_cus, h_cus, node_active) \<Rightarrow>
           let st1 = fsync_update_cus_req st l_cus dir node node_active;
               st2 = fsync_update_cus_req st1 h_cus dir node node_active
           in case (if dir = h_fs_dir then fsync_update_h_poss st2 h_cus threshold
                    else fsync_update_v_poss st2 h_cus threshold) of (st3, subtree_threshold) \<Rightarrow>
              case fsync_partition_subtree alloc (k + 2) st3 l_cus dir subtree_threshold hv_fs_node
                of (st4, k4, l_subtree_active) \<Rightarrow>
              case fsync_partition_subtree alloc k4 st4 h_cus dir subtree_threshold hv_fs_node
                of (st5, k5, h_subtree_active) \<Rightarrow>
              (st5, k5, node_active \<or> l_subtree_active \<or> h_subtree_active))))"
  by pat_completeness auto

termination fsync_partition_subtree
proof -
  have half: "Suc (2 * unat (th div 2)) < 2 * unat th" if "th \<noteq> 0" for th :: uint
  proof -
    from that have "unat th \<ge> 1" by (simp add: unat_gt_0 Suc_leI)
    moreover have "unat (th div 2) = unat th div 2" by (simp add: unat_div)
    ultimately show ?thesis by arith
  qed
  show ?thesis
    apply (relation "measure (\<lambda>(alloc, k, st, cus, dir, th, node).
                       2 * unat th + (if node = hv_fs_node then 1 else 0))")
    apply (auto simp: fsync_update_h_poss_def fsync_update_v_poss_def half split: if_splits)
    done
qed

declare fsync_partition_subtree.simps [simp del]

section \<open>Reset and top-level generation (lines 155-259)\<close>

text \<open>Lines 157-159: the body of the loop of \<^verbatim>\<open>fsync_init_reqs\<close>, on one CU.\<close>

definition fsync_init_req :: "fsync_cu \<Rightarrow> fsync_cu" where
  "fsync_init_req c =
     c\<lparr>fsync_req := (fsync_req c)\<lparr>fs_req_aggr := 0, fs_req_id := 0, req_node := null_fs_node\<rparr>\<rparr>"

definition fsync_init_reqs :: "fsync_cu list \<Rightarrow> fsync_cu list" where
  "fsync_init_reqs cus = map fsync_init_req cus"

definition set_req_node :: "fsync_node \<Rightarrow> fsync_cu \<Rightarrow> fsync_cu" where
  "set_req_node n c = c\<lparr>fsync_req := (fsync_req c)\<lparr>req_node := n\<rparr>\<rparr>"

definition set_req_id :: "uint \<Rightarrow> fsync_cu \<Rightarrow> fsync_cu" where
  "set_req_id n c = c\<lparr>fsync_req := (fsync_req c)\<lparr>fs_req_id := n\<rparr>\<rparr>"

definition set_req_aggr :: "uint \<Rightarrow> fsync_cu \<Rightarrow> fsync_cu" where
  "set_req_aggr n c = c\<lparr>fsync_req := (fsync_req c)\<lparr>fs_req_aggr := n\<rparr>\<rparr>"

text \<open>Lines 176-185 of \<^verbatim>\<open>fsync_gen_reqs\<close>: the axis of the pair and the first write of
  \<^verbatim>\<open>req_node\<close> of both CUs.\<close>

definition fsync_pair_axis ::
  "uint \<Rightarrow> uint \<Rightarrow> fsync_dir \<Rightarrow> fsync_cu \<Rightarrow> fsync_cu \<Rightarrow> fsync_dir \<times> fsync_cu \<times> fsync_cu" where
  "fsync_pair_axis x_dist y_dist default_dir c0 c1 =
     (if x_dist > y_dist then (h_fs_dir, set_req_node h_fs_node c0, set_req_node h_fs_node c1)
      else if x_dist = y_dist then
        (default_dir, set_req_node hv_fs_node c0, set_req_node hv_fs_node c1)
      else (v_fs_dir, set_req_node v_fs_node c0, set_req_node v_fs_node c1))"

text \<open>Lines 188-201: the branch \<^verbatim>\<open>dist == 1\<close>.\<close>

definition fsync_pair_nbr :: "fsync_dir \<Rightarrow> fsync_cu \<Rightarrow> fsync_cu \<Rightarrow> fsync_cu \<times> fsync_cu" where
  "fsync_pair_nbr dir c0 c1 =
     (let a0 = set_req_aggr 1 c0; a1 = set_req_aggr 1 c1 in
      if dir = h_fs_dir then
        (if fsync_nbr_node (x_pos a0) (x_pos a1) then (set_req_id 2 a0, set_req_id 2 a1)
         else (set_req_id 0 a0, set_req_id 0 a1))
      else
        (if fsync_nbr_node (y_pos a0) (y_pos a1) then (set_req_id 3 a0, set_req_id 3 a1)
         else (set_req_id 1 a0, set_req_id 1 a1)))"

text \<open>Lines 203-222: the local variables of the hop loop, and the loop.  Each round tests the
  x axis, then the y axis; one flag \<^verbatim>\<open>done\<close> serves both.\<close>

record fsync_walk =
  hops :: uint
  x_th :: uint
  y_th :: uint
  x_p0 :: uint
  x_p1 :: uint
  y_p0 :: uint
  y_p1 :: uint
  done_flag :: bool

definition fsync_walk_body :: "fsync_walk \<Rightarrow> fsync_walk" where
  "fsync_walk_body w =
     (let w1 = (if fsync_same_subtree (x_p0 w) (x_p1 w) (x_th w) \<and> x_th w > 0
                then w\<lparr>x_p0 := fst (fsync_update_pos (x_p0 w) (x_th w)),
                       x_p1 := fst (fsync_update_pos (x_p1 w) (x_th w)),
                       x_th := snd (fsync_update_pos (x_p1 w) (x_th w)),
                       hops := hops w - 1\<rparr>
                else w\<lparr>done_flag := True\<rparr>)
      in (if fsync_same_subtree (y_p0 w1) (y_p1 w1) (y_th w1) \<and> y_th w1 > 0
          then w1\<lparr>y_p0 := fst (fsync_update_pos (y_p0 w1) (y_th w1)),
                  y_p1 := fst (fsync_update_pos (y_p1 w1) (y_th w1)),
                  y_th := snd (fsync_update_pos (y_p1 w1) (y_th w1)),
                  hops := hops w1 - 1\<rparr>
          else w1\<lparr>done_flag := True\<rparr>))"

function fsync_walk_loop :: "fsync_walk \<Rightarrow> fsync_walk" where
  "fsync_walk_loop w = (if done_flag w then w else fsync_walk_loop (fsync_walk_body w))"
  by pat_completeness auto

termination fsync_walk_loop
proof -
  have step: "unat (x_th (fsync_walk_body w)) < unat (x_th w)"
    if "\<not> done_flag w" "\<not> done_flag (fsync_walk_body w)" for w
    using that
    by (auto simp: fsync_walk_body_def Let_def fsync_update_pos_def unat_div unat_gt_0
             split: if_splits)
  show ?thesis
    apply (relation "measure (\<lambda>w. if done_flag w then 0 else Suc (unat (x_th w)))")
    apply (auto simp: step)
    done
qed

declare fsync_walk_loop.simps [simp del]

text \<open>Lines 203-210: the initial values of the loop's variables.\<close>

definition fsync_walk_init :: "fsync_cu \<Rightarrow> fsync_cu \<Rightarrow> fsync_walk" where
  "fsync_walk_init c0 c1 =
     \<lparr>hops = FSYNC_N_LVL, x_th = FSYNC_N_CU_X div 2, y_th = FSYNC_N_CU_Y div 2,
      x_p0 = x_pos c0, x_p1 = x_pos c1, y_p0 = y_pos c0, y_p1 = y_pos c1,
      done_flag = False\<rparr>"

text \<open>Lines 203-234: the branch \<^verbatim>\<open>dist > 1\<close>.  \<^verbatim>\<open>0b1 << (hops-1)\<close> shifts by at most 3
  (the loop leaves \<open>hops \<le> 4\<close>), so the shift is defined in C and is \<open>push_bit\<close>.\<close>

definition fsync_pair_far ::
  "fsync_dir \<Rightarrow> fsync_cu \<Rightarrow> fsync_cu \<Rightarrow> (fsync_cu \<times> fsync_cu) \<times> bool" where
  "fsync_pair_far dir c0 c1 =
     (let w = fsync_walk_loop (fsync_walk_init c0 c1) in
      if hops w > 1 then
        (let aggregate = push_bit (unat (hops w - 1)) (1 :: uint);
             a0 = set_req_aggr aggregate c0; a1 = set_req_aggr aggregate c1
         in if dir = h_fs_dir then
              ((set_req_node h_fs_node (set_req_id 0 a0),
                set_req_node h_fs_node (set_req_id 0 a1)), True)
            else
              ((set_req_node v_fs_node (set_req_id 1 a0),
                set_req_node v_fs_node (set_req_id 1 a1)), True))
      else ((c0, c1), False))"

text \<open>Lines 169-236: the branch \<^verbatim>\<open>num_cus == 2\<close>, on \<^verbatim>\<open>cus[0]\<close> and \<^verbatim>\<open>cus[1]\<close>.\<close>

definition fsync_gen_pair :: "fsync_cu \<Rightarrow> fsync_cu \<Rightarrow> fsync_dir \<Rightarrow> fsync_cu list \<times> bool" where
  "fsync_gen_pair c0 c1 default_dir =
     (let x_dist = abs_diff (x_pos c0) (x_pos c1);
          y_dist = abs_diff (y_pos c0) (y_pos c1);
          dist = x_dist + y_dist
      in if dist = 0 then ([c0, c1], False)
         else case fsync_pair_axis x_dist y_dist default_dir c0 c1 of (dir, t0, t1) \<Rightarrow>
           if dist = 1 then (case fsync_pair_nbr dir t0 t1 of (r0, r1) \<Rightarrow> ([r0, r1], True))
           else (case fsync_pair_far dir t0 t1 of ((r0, r1), ok) \<Rightarrow> ([r0, r1], ok)))"

text \<open>Lines 249-253: copy the three request fields of a working CU onto the caller's CU.\<close>

definition fsync_copy_req :: "fsync_cu \<Rightarrow> fsync_cu \<Rightarrow> fsync_cu" where
  "fsync_copy_req c t =
     c\<lparr>fsync_req := (fsync_req c)\<lparr>fs_req_aggr := fs_req_aggr (fsync_req t),
                                  fs_req_id := fs_req_id (fsync_req t),
                                  req_node := req_node (fsync_req t)\<rparr>\<rparr>"

text \<open>\<^verbatim>\<open>fsync_gen_reqs\<close>: the caller's array is the list \<open>cus\<close> (\<^verbatim>\<open>num_cus\<close> is its length);
  the result is the array after the call and the returned flag.  The two calls of
  \<^verbatim>\<open>malloc\<close> are calls 0 and 1 of the allocator; the engine starts at call 2 on the pointer
  array \<^verbatim>\<open>cus_ptr[i] = &temp_cus[i]\<close>.\<close>

definition fsync_gen_reqs ::
  "(nat \<Rightarrow> bool) \<Rightarrow> fsync_cu list \<Rightarrow> fsync_dir \<Rightarrow> fsync_cu list \<times> bool" where
  "fsync_gen_reqs alloc cus default_dir =
     (let cus0 = fsync_init_reqs cus; num_cus = length cus in
      if num_cus < 2 then (cus0, False)
      else if num_cus = 2 then fsync_gen_pair (cus0 ! 0) (cus0 ! 1) default_dir
      else if \<not> alloc 0 then (cus0, False)
      else if \<not> alloc 1 then (cus0, False)
      else case fsync_partition_subtree alloc 2 cus0 [0..<num_cus] default_dir
                  FSYNC_DEFAULT_TH hv_fs_node of (temp_cus, k, generated_reqs) \<Rightarrow>
             (map (\<lambda>i. fsync_copy_req (cus0 ! i) (temp_cus ! i)) [0..<num_cus],
              generated_reqs))"

section \<open>Notions used to state the properties\<close>

text \<open>The reset value of a request (lines 157-159).\<close>

definition fsync_default_req :: fsync_req where
  "fsync_default_req = \<lparr>fs_req_aggr = 0, fs_req_id = 0, req_node = null_fs_node\<rparr>"

text \<open>The allocator that never fails.\<close>

definition alloc_ok :: "nat \<Rightarrow> bool" where
  "alloc_ok k = True"

text \<open>The number of set bits of a request's aggregate.\<close>

definition fsync_bit_count :: "uint \<Rightarrow> nat" where
  "fsync_bit_count a = length (filter (bit a) [0..<32])"

text \<open>The distances of lines 169-171.\<close>

definition fsync_x_dist :: "fsync_cu \<Rightarrow> fsync_cu \<Rightarrow> uint" where
  "fsync_x_dist c0 c1 = abs_diff (x_pos c0) (x_pos c1)"

definition fsync_y_dist :: "fsync_cu \<Rightarrow> fsync_cu \<Rightarrow> uint" where
  "fsync_y_dist c0 c1 = abs_diff (y_pos c0) (y_pos c1)"

text \<open>The hop counter the loop of lines 211-222 leaves for a pair.\<close>

definition fsync_pair_hops :: "fsync_cu \<Rightarrow> fsync_cu \<Rightarrow> uint" where
  "fsync_pair_hops c0 c1 = hops (fsync_walk_loop (fsync_walk_init c0 c1))"

text \<open>
  The hop count as the specification words it: each axis walks its own halving sequence
  alone, from its base threshold, for as long as both coordinates lie in the same half
  and the threshold is positive; every step of either axis decrements the counter.
\<close>

function spec_axis_steps :: "uint \<Rightarrow> uint \<Rightarrow> uint \<Rightarrow> nat" where
  "spec_axis_steps p0 p1 th =
     (if fsync_same_subtree p0 p1 th \<and> th > 0
      then Suc (spec_axis_steps (fst (fsync_update_pos p0 th)) (fst (fsync_update_pos p1 th))
                  (th div 2))
      else 0)"
  by pat_completeness auto
termination
  by (relation "measure (\<lambda>(p0, p1, th). unat th)") (auto simp: unat_div unat_gt_0)

declare spec_axis_steps.simps [simp del]

definition spec_pair_hops :: "fsync_cu \<Rightarrow> fsync_cu \<Rightarrow> uint" where
  "spec_pair_hops c0 c1 =
     FSYNC_N_LVL - of_nat (spec_axis_steps (x_pos c0) (x_pos c1) (FSYNC_N_CU_X div 2))
                 - of_nat (spec_axis_steps (y_pos c0) (y_pos c1) (FSYNC_N_CU_Y div 2))"

text \<open>The axis and the node tag chosen at lines 176-185, as functions of the distances.\<close>

definition fsync_pair_dir :: "uint \<Rightarrow> uint \<Rightarrow> fsync_dir \<Rightarrow> fsync_dir" where
  "fsync_pair_dir x_dist y_dist default_dir =
     (if x_dist > y_dist then h_fs_dir else if x_dist = y_dist then default_dir else v_fs_dir)"

definition fsync_pair_tag :: "uint \<Rightarrow> uint \<Rightarrow> fsync_node" where
  "fsync_pair_tag x_dist y_dist =
     (if x_dist > y_dist then h_fs_node else if x_dist = y_dist then hv_fs_node else v_fs_node)"

text \<open>A CU as a caller declares it (the test's \<^verbatim>\<open>{.cu_id = i, .y_pos = y, .x_pos = x}\<close>):
  the request fields are zero.\<close>

definition test_cu :: "uint \<Rightarrow> uint \<Rightarrow> uint \<Rightarrow> fsync_cu" where
  "test_cu i y x =
     \<lparr>cu_id = i, y_pos = y, x_pos = x,
      fsync_req = \<lparr>fs_req_aggr = 0, fs_req_id = 0, req_node = null_fs_node\<rparr>\<rparr>"

text \<open>First write wins: a request whose node is set keeps its node and its id.\<close>

definition fsync_req_kept :: "fsync_cu \<Rightarrow> fsync_cu \<Rightarrow> bool" where
  "fsync_req_kept c c' =
     (req_node (fsync_req c) = null_fs_node \<or>
      (req_node (fsync_req c') = req_node (fsync_req c) \<and>
       fs_req_id (fsync_req c') = fs_req_id (fsync_req c)))"

text \<open>The Manhattan distance of two CUs, on the integers, and the CUs of the configured
  grid.\<close>

definition fsync_manhattan :: "fsync_cu \<Rightarrow> fsync_cu \<Rightarrow> int" where
  "fsync_manhattan c0 c1 =
     \<bar>uint (x_pos c0) - uint (x_pos c1)\<bar> + \<bar>uint (y_pos c0) - uint (y_pos c1)\<bar>"

definition fsync_in_grid :: "fsync_cu \<Rightarrow> bool" where
  "fsync_in_grid c = (x_pos c < FSYNC_N_CU_X \<and> y_pos c < FSYNC_N_CU_Y)"

text \<open>
  One node of the engine without its recursive calls: the two pointer arrays it descends
  into, its active flag, whether the y coordinate (rather than x) of the high half is
  renormalised, and the direction, threshold and node kind of the two child calls.
\<close>

definition fsync_node_plan ::
  "cu_store \<Rightarrow> cu_ptrs \<Rightarrow> fsync_dir \<Rightarrow> uint \<Rightarrow> fsync_node
     \<Rightarrow> cu_ptrs \<times> cu_ptrs \<times> bool \<times> bool \<times> fsync_dir \<times> uint \<times> fsync_node" where
  "fsync_node_plan st cus dir threshold node =
     (case fsync_partition_h_cus st cus threshold of (h_l, h_h, h_act) \<Rightarrow>
      case fsync_partition_v_cus st cus threshold of (v_l, v_h, v_act) \<Rightarrow>
      if node = hv_fs_node then
        (if (if (h_act \<and> v_act) \<or> (\<not> h_act \<and> \<not> v_act) then dir = h_fs_dir else h_act)
         then (v_l, v_h, h_act \<and> v_act, True, h_fs_dir, threshold, h_fs_node)
         else (h_l, h_h, h_act \<and> v_act, False, v_fs_dir, threshold, v_fs_node))
      else if dir = h_fs_dir then (h_l, h_h, h_act, False, dir, threshold div 2, hv_fs_node)
      else (v_l, v_h, v_act, True, dir, threshold div 2, hv_fs_node))"

text \<open>How many times a threshold can be halved before it is zero, and the number of
  nodes on a path of the engine below a node of the given kind and threshold.\<close>

fun halvings :: "nat \<Rightarrow> nat" where
  "halvings n = (if n = 0 then 0 else Suc (halvings (n div 2)))"

declare halvings.simps [simp del]

definition fsync_levels :: "fsync_node \<Rightarrow> uint \<Rightarrow> nat" where
  "fsync_levels node threshold =
     (if node = hv_fs_node then 2 * halvings (unat threshold)
      else 2 * halvings (unat threshold) - 1)"

section \<open>The engine, one node at a time\<close>

lemma fsync_partition_subtree_unfold:
  "fsync_partition_subtree alloc k st cus dir threshold node =
    (if threshold < 1 then (st, k, False)
     else let n = (if node = hv_fs_node then 4 else 2) in
       if \<not> (\<forall>j<n. alloc (k + j)) then (st, k + n, False)
       else case fsync_node_plan st cus dir threshold node of
         (l_cus, h_cus, node_active, by_y, cdir, cth, cnode) \<Rightarrow>
           let st1 = fsync_update_cus_req st l_cus dir node node_active;
               st2 = fsync_update_cus_req st1 h_cus dir node node_active;
               st3 = fst (if by_y then fsync_update_v_poss st2 h_cus threshold
                          else fsync_update_h_poss st2 h_cus threshold)
           in case fsync_partition_subtree alloc (k + n) st3 l_cus cdir cth cnode of
                (st4, k4, l_active) \<Rightarrow>
              case fsync_partition_subtree alloc k4 st4 h_cus cdir cth cnode of
                (st5, k5, h_active) \<Rightarrow> (st5, k5, node_active \<or> l_active \<or> h_active))"
proof -
  have four: "(\<forall>j<4. alloc (k + j)) = (alloc k \<and> alloc (k + 1) \<and> alloc (k + 2) \<and> alloc (k + 3))"
    by (auto simp: less_Suc_eq numeral_eq_Suc)
  have two: "(\<forall>j<2. alloc (k + j)) = (alloc k \<and> alloc (k + 1))"
    by (auto simp: less_Suc_eq numeral_eq_Suc)
  show ?thesis
  proof (cases "node = hv_fs_node")
    case True
    show ?thesis
      apply (subst fsync_partition_subtree.simps)
      apply (simp only: True if_True four Let_def fsync_node_plan_def)
      apply (cases "fsync_partition_h_cus st cus threshold")
      apply (cases "fsync_partition_v_cus st cus threshold")
      apply (simp add: four)
      done
  next
    case False
    show ?thesis
      apply (subst fsync_partition_subtree.simps)
      apply (simp only: False if_False two Let_def fsync_node_plan_def)
      apply (cases "fsync_partition_h_cus st cus threshold")
      apply (cases "fsync_partition_v_cus st cus threshold")
      apply (simp add: two fsync_update_h_poss_def fsync_update_v_poss_def)
      done
  qed
qed

section \<open>Fields outside the request\<close>

lemma length_fsync_init_reqs [simp]: "length (fsync_init_reqs cus) = length cus"
  by (simp add: fsync_init_reqs_def fsync_init_req_def)

lemma fsync_init_reqs_fields [simp]:
  "map cu_id (fsync_init_reqs cus) = map cu_id cus"
  "map x_pos (fsync_init_reqs cus) = map x_pos cus"
  "map y_pos (fsync_init_reqs cus) = map y_pos cus"
  by (simp_all add: fsync_init_reqs_def fsync_init_req_def)

lemma fsync_init_reqs_req:
  "map fsync_req (fsync_init_reqs cus) = replicate (length cus) fsync_default_req"
  by (induction cus) (simp_all add: fsync_init_reqs_def fsync_init_req_def fsync_default_req_def)

lemma set_req_fields [simp]:
  "cu_id (set_req_node n c) = cu_id c" "x_pos (set_req_node n c) = x_pos c" "y_pos (set_req_node n c) = y_pos c"
  "cu_id (set_req_id m c) = cu_id c" "x_pos (set_req_id m c) = x_pos c" "y_pos (set_req_id m c) = y_pos c"
  "cu_id (set_req_aggr m c) = cu_id c" "x_pos (set_req_aggr m c) = x_pos c" "y_pos (set_req_aggr m c) = y_pos c"
  by (simp_all add: set_req_node_def set_req_id_def set_req_aggr_def)

lemma fsync_copy_req_fields [simp]:
  "cu_id (fsync_copy_req c t) = cu_id c" "x_pos (fsync_copy_req c t) = x_pos c"
  "y_pos (fsync_copy_req c t) = y_pos c"
  by (simp_all add: fsync_copy_req_def)

lemma fsync_gen_pair_fields:
  "map cu_id (fst (fsync_gen_pair c0 c1 d)) = [cu_id c0, cu_id c1]"
  "map x_pos (fst (fsync_gen_pair c0 c1 d)) = [x_pos c0, x_pos c1]"
  "map y_pos (fst (fsync_gen_pair c0 c1 d)) = [y_pos c0, y_pos c1]"
  by (simp_all add: fsync_gen_pair_def fsync_pair_axis_def fsync_pair_nbr_def fsync_pair_far_def
        Let_def split: prod.splits if_splits)

lemma list2_nth: "length xs = 2 \<Longrightarrow> xs = [xs ! 0, xs ! 1]"
  by (cases xs; cases "tl xs") auto

lemma fsync_gen_reqs_fields:
  fixes f :: "fsync_cu \<Rightarrow> uint"
  assumes init: "map f (fsync_init_reqs cus) = map f cus"
    and pair: "\<And>c0 c1. map f (fst (fsync_gen_pair c0 c1 d)) = [f c0, f c1]"
    and copy: "\<And>c t. f (fsync_copy_req c t) = f c"
  shows "map f (fst (fsync_gen_reqs alloc cus d)) = map f cus"
proof -
  let ?cus0 = "fsync_init_reqs cus"
  have two: "map f (fst (fsync_gen_pair (?cus0 ! 0) (?cus0 ! 1) d)) = map f cus"
    if "length cus = 2"
  proof -
    from that have "?cus0 = [?cus0 ! 0, ?cus0 ! 1]" by (intro list2_nth) simp
    then have "map f ?cus0 = [f (?cus0 ! 0), f (?cus0 ! 1)]" by (metis list.simps(8,9))
    then show ?thesis using init pair by simp
  qed
  have many: "map f (map (\<lambda>i. fsync_copy_req (?cus0 ! i) (t ! i)) [0..<length cus]) = map f cus" for t
  proof -
    have "map f (map (\<lambda>i. fsync_copy_req (?cus0 ! i) (t ! i)) [0..<length cus])
            = map (\<lambda>i. f (?cus0 ! i)) [0..<length ?cus0]"
      by (simp add: copy)
    also have "\<dots> = map f ?cus0" by (rule nth_equalityI) simp_all
    finally show ?thesis using init by simp
  qed
  show ?thesis
    using two many init
    by (simp add: fsync_gen_reqs_def Let_def split: prod.splits)
qed

lemma length_fsync_gen_reqs [simp]:
  "length (fst (fsync_gen_reqs alloc cus d)) = length cus"
proof -
  have "map cu_id (fst (fsync_gen_reqs alloc cus d)) = map cu_id cus"
    by (simp add: fsync_gen_reqs_fields fsync_gen_pair_fields)
  then show ?thesis by (rule map_eq_imp_length_eq)
qed

text \<open>
  Claim C10.  For every allocator behaviour, input list and direction flag, and whatever the
  returned flag, the array after \<^verbatim>\<open>fsync_gen_reqs\<close> has, position by position, the
  \<^verbatim>\<open>cu_id\<close>, \<^verbatim>\<open>x_pos\<close> and \<^verbatim>\<open>y_pos\<close> of the input array (and so the same length):
  only request fields are written.
\<close>

theorem fsync_gen_reqs_frame:
  "map cu_id (fst (fsync_gen_reqs alloc cus default_dir)) = map cu_id cus \<and>
   map x_pos (fst (fsync_gen_reqs alloc cus default_dir)) = map x_pos cus \<and>
   map y_pos (fst (fsync_gen_reqs alloc cus default_dir)) = map y_pos cus"
  by (simp add: fsync_gen_reqs_fields fsync_gen_pair_fields)

section \<open>Updating the store through a pointer array\<close>

lemma fold_upd_length [simp]:
  "length (fold (\<lambda>p s. s[p := f (s ! p)]) cus st) = length st"
  by (induction cus arbitrary: st) simp_all

lemma fold_upd_frame:
  "i \<notin> set cus \<Longrightarrow> fold (\<lambda>p s. s[p := f (s ! p)]) cus st ! i = st ! i"
  by (induction cus arbitrary: st) simp_all

lemma fold_upd_nth:
  "distinct cus \<Longrightarrow> i < length st \<Longrightarrow>
     fold (\<lambda>p s. s[p := f (s ! p)]) cus st ! i = (if i \<in> set cus then f (st ! i) else st ! i)"
proof (induction cus arbitrary: st)
  case Nil
  then show ?case by simp
next
  case (Cons p ps)
  show ?case
  proof (cases "i = p")
    case True
    with Cons.prems have "i \<notin> set ps" by simp
    then show ?thesis using True Cons.prems by (simp add: fold_upd_frame)
  next
    case False
    then show ?thesis using Cons by simp
  qed
qed

lemma fold_upd_rel:
  assumes refl: "\<And>s. R s s"
    and trans: "\<And>a b c. R a b \<Longrightarrow> R b c \<Longrightarrow> R a c"
    and step: "\<And>s p. R s (s[p := f (s ! p)])"
  shows "R st (fold (\<lambda>p s. s[p := f (s ! p)]) cus st)"
proof (induction cus arbitrary: st)
  case Nil
  show ?case by (simp add: refl)
next
  case (Cons p ps)
  have "R st (st[p := f (st ! p)])" by (rule step)
  moreover have "R (st[p := f (st ! p)]) (fold (\<lambda>p s. s[p := f (s ! p)]) ps (st[p := f (st ! p)]))"
    by (rule Cons.IH)
  ultimately show ?case by (simp add: trans)
qed

lemma length_fsync_update_cus_req [simp]:
  "length (fsync_update_cus_req st cus dir node act) = length st"
  by (simp add: fsync_update_cus_req_def)

lemma fsync_update_cus_req_nth:
  "distinct cus \<Longrightarrow> i < length st \<Longrightarrow>
     fsync_update_cus_req st cus dir node act ! i =
       (if i \<in> set cus then fsync_update_req dir node act (st ! i) else st ! i)"
  unfolding fsync_update_cus_req_def by (rule fold_upd_nth)

lemma fsync_update_cus_req_frame:
  "i \<notin> set cus \<Longrightarrow> fsync_update_cus_req st cus dir node act ! i = st ! i"
  unfolding fsync_update_cus_req_def by (rule fold_upd_frame)

lemma length_fsync_update_h_poss [simp]:
  "length (fst (fsync_update_h_poss st cus th)) = length st"
  by (simp add: fsync_update_h_poss_def
        fold_upd_length [where f = "\<lambda>c. c\<lparr>x_pos := fst (fsync_update_pos (x_pos c) th)\<rparr>"])

lemma length_fsync_update_v_poss [simp]:
  "length (fst (fsync_update_v_poss st cus th)) = length st"
  by (simp add: fsync_update_v_poss_def
        fold_upd_length [where f = "\<lambda>c. c\<lparr>y_pos := fst (fsync_update_pos (y_pos c) th)\<rparr>"])

lemma fsync_update_h_poss_nth:
  "distinct cus \<Longrightarrow> i < length st \<Longrightarrow>
     fst (fsync_update_h_poss st cus th) ! i =
       (if i \<in> set cus then (st ! i)\<lparr>x_pos := fst (fsync_update_pos (x_pos (st ! i)) th)\<rparr>
        else st ! i)"
  by (simp add: fsync_update_h_poss_def
        fold_upd_nth [where f = "\<lambda>c. c\<lparr>x_pos := fst (fsync_update_pos (x_pos c) th)\<rparr>"])

lemma fsync_update_v_poss_nth:
  "distinct cus \<Longrightarrow> i < length st \<Longrightarrow>
     fst (fsync_update_v_poss st cus th) ! i =
       (if i \<in> set cus then (st ! i)\<lparr>y_pos := fst (fsync_update_pos (y_pos (st ! i)) th)\<rparr>
        else st ! i)"
  by (simp add: fsync_update_v_poss_def
        fold_upd_nth [where f = "\<lambda>c. c\<lparr>y_pos := fst (fsync_update_pos (y_pos c) th)\<rparr>"])

lemma fsync_update_h_poss_frame:
  "i \<notin> set cus \<Longrightarrow> fst (fsync_update_h_poss st cus th) ! i = st ! i"
  by (simp add: fsync_update_h_poss_def
        fold_upd_frame [where f = "\<lambda>c. c\<lparr>x_pos := fst (fsync_update_pos (x_pos c) th)\<rparr>"])

lemma fsync_update_v_poss_frame:
  "i \<notin> set cus \<Longrightarrow> fst (fsync_update_v_poss st cus th) ! i = st ! i"
  by (simp add: fsync_update_v_poss_def
        fold_upd_frame [where f = "\<lambda>c. c\<lparr>y_pos := fst (fsync_update_pos (y_pos c) th)\<rparr>"])

lemma map_req_fold_pos:
  fixes g :: "fsync_cu \<Rightarrow> fsync_cu"
  assumes "\<And>c. fsync_req (g c) = fsync_req c"
  shows "map fsync_req (fold (\<lambda>p s. s[p := g (s ! p)]) cus st) = map fsync_req st"
proof (rule fold_upd_rel [where R = "\<lambda>a b. map fsync_req b = map fsync_req a"])
  fix s :: "fsync_cu list" and p
  show "map fsync_req (s[p := g (s ! p)]) = map fsync_req s"
  proof (cases "p < length s")
    case True
    then show ?thesis by (simp add: map_update assms list_update_same_conv)
  next
    case False
    then have "s[p := g (s ! p)] = s" by (intro list_update_beyond) simp
    then show ?thesis by simp
  qed
qed simp_all

lemma map_req_fsync_update_poss [simp]:
  "map fsync_req (fst (fsync_update_h_poss st cus th)) = map fsync_req st"
  "map fsync_req (fst (fsync_update_v_poss st cus th)) = map fsync_req st"
  by (simp_all add: fsync_update_h_poss_def fsync_update_v_poss_def
        map_req_fold_pos [where g = "\<lambda>c. c\<lparr>x_pos := fst (fsync_update_pos (x_pos c) th)\<rparr>"]
        map_req_fold_pos [where g = "\<lambda>c. c\<lparr>y_pos := fst (fsync_update_pos (y_pos c) th)\<rparr>"])

section \<open>The plan of a node\<close>

lemma fsync_partition_h_cus_eq:
  "fsync_partition_h_cus st cus th =
     (filter (\<lambda>p. x_pos (st ! p) < th) cus, filter (\<lambda>p. \<not> x_pos (st ! p) < th) cus,
      filter (\<lambda>p. x_pos (st ! p) < th) cus \<noteq> [] \<and> filter (\<lambda>p. \<not> x_pos (st ! p) < th) cus \<noteq> [])"
  by (simp add: fsync_partition_h_cus_def Let_def)

lemma fsync_partition_v_cus_eq:
  "fsync_partition_v_cus st cus th =
     (filter (\<lambda>p. y_pos (st ! p) < th) cus, filter (\<lambda>p. \<not> y_pos (st ! p) < th) cus,
      filter (\<lambda>p. y_pos (st ! p) < th) cus \<noteq> [] \<and> filter (\<lambda>p. \<not> y_pos (st ! p) < th) cus \<noteq> [])"
  by (simp add: fsync_partition_v_cus_def Let_def)

text \<open>The four shapes of a plan: a combined node descending into the halves by y or by x,
  and a single-axis node splitting by x or by y.\<close>

lemma fsync_node_plan_cases [consumes 1, case_names hv_y hv_x one_x one_y]:
  assumes plan: "fsync_node_plan st cus dir th node = (l, h, act, by_y, cdir, cth, cnode)"
  obtains
    (hv_y) "node = hv_fs_node"
      "fsync_partition_v_cus st cus th = (l, h, snd (snd (fsync_partition_v_cus st cus th)))"
      "act = (snd (snd (fsync_partition_h_cus st cus th)) \<and> snd (snd (fsync_partition_v_cus st cus th)))"
      "by_y" "cdir = h_fs_dir" "cth = th" "cnode = h_fs_node"
  | (hv_x) "node = hv_fs_node"
      "fsync_partition_h_cus st cus th = (l, h, snd (snd (fsync_partition_h_cus st cus th)))"
      "act = (snd (snd (fsync_partition_h_cus st cus th)) \<and> snd (snd (fsync_partition_v_cus st cus th)))"
      "\<not> by_y" "cdir = v_fs_dir" "cth = th" "cnode = v_fs_node"
  | (one_x) "node \<noteq> hv_fs_node" "dir = h_fs_dir"
      "fsync_partition_h_cus st cus th = (l, h, act)"
      "\<not> by_y" "cdir = dir" "cth = th div 2" "cnode = hv_fs_node"
  | (one_y) "node \<noteq> hv_fs_node" "dir \<noteq> h_fs_dir"
      "fsync_partition_v_cus st cus th = (l, h, act)"
      "by_y" "cdir = dir" "cth = th div 2" "cnode = hv_fs_node"
proof -
  obtain hl hh ha where ph: "fsync_partition_h_cus st cus th = (hl, hh, ha)"
    by (rule prod_cases3)
  obtain vl vh va where pv: "fsync_partition_v_cus st cus th = (vl, vh, va)"
    by (rule prod_cases3)
  define c where "c = (if (ha \<and> va) \<or> (\<not> ha \<and> \<not> va) then dir = h_fs_dir else ha)"
  from plan have eq:
    "(if node = hv_fs_node then
        (if c
         then (vl, vh, ha \<and> va, True, h_fs_dir, th, h_fs_node)
         else (hl, hh, ha \<and> va, False, v_fs_dir, th, v_fs_node))
      else if dir = h_fs_dir then (hl, hh, ha, False, dir, th div 2, hv_fs_node)
      else (vl, vh, va, True, dir, th div 2, hv_fs_node)) = (l, h, act, by_y, cdir, cth, cnode)"
    by (simp only: fsync_node_plan_def ph pv prod.case c_def)
  show thesis
  proof (cases "node = hv_fs_node")
    case True
    show thesis
    proof (cases c)
      case y: True
      with eq True have "(vl, vh, ha \<and> va, True, h_fs_dir, th, h_fs_node)
                           = (l, h, act, by_y, cdir, cth, cnode)"
        by simp
      then show thesis using True ph pv by (intro hv_y) simp_all
    next
      case x: False
      with eq True have "(hl, hh, ha \<and> va, False, v_fs_dir, th, v_fs_node)
                           = (l, h, act, by_y, cdir, cth, cnode)"
        by simp
      then show thesis using True ph pv by (intro hv_x) simp_all
    qed
  next
    case False
    show thesis
    proof (cases "dir = h_fs_dir")
      case x: True
      with eq False have "(hl, hh, ha, False, dir, th div 2, hv_fs_node)
                            = (l, h, act, by_y, cdir, cth, cnode)"
        by simp
      then show thesis using False x ph by (intro one_x) simp_all
    next
      case y: False
      with eq False have "(vl, vh, va, True, dir, th div 2, hv_fs_node)
                            = (l, h, act, by_y, cdir, cth, cnode)"
        by simp
      then show thesis using False y pv by (intro one_y) simp_all
    qed
  qed
qed

lemma fsync_node_plan_shape:
  assumes "fsync_node_plan st cus dir th node = (l, h, act, by_y, cdir, cth, cnode)"
  shows "\<exists>P. l = filter P cus \<and> h = filter (\<lambda>p. \<not> P p) cus \<and> (act \<longrightarrow> l \<noteq> [] \<and> h \<noteq> [])
             \<and> (if node = hv_fs_node then cth = th \<and> cnode \<noteq> hv_fs_node
                 else cth = th div 2 \<and> cnode = hv_fs_node)"
  using assms
proof (cases rule: fsync_node_plan_cases)
  case hv_y
  then show ?thesis
    by (intro exI [where x = "\<lambda>p. y_pos (st ! p) < th"]) (simp add: fsync_partition_v_cus_eq)
next
  case hv_x
  then show ?thesis
    by (intro exI [where x = "\<lambda>p. x_pos (st ! p) < th"]) (simp add: fsync_partition_h_cus_eq)
next
  case one_x
  then show ?thesis
    by (intro exI [where x = "\<lambda>p. x_pos (st ! p) < th"]) (auto simp: fsync_partition_h_cus_eq)
next
  case one_y
  then show ?thesis
    by (intro exI [where x = "\<lambda>p. y_pos (st ! p) < th"]) (auto simp: fsync_partition_v_cus_eq)
qed

lemma fsync_node_plan_sets:
  assumes "fsync_node_plan st cus dir th node = (l, h, act, by_y, cdir, cth, cnode)"
  shows "set l \<union> set h = set cus" and "set l \<inter> set h = {}"
    and "distinct cus \<Longrightarrow> distinct l \<and> distinct h"
    and "act \<Longrightarrow> l \<noteq> [] \<and> h \<noteq> []"
proof -
  from fsync_node_plan_shape [OF assms] obtain P
    where lh: "l = filter P cus" "h = filter (\<lambda>p. \<not> P p) cus" and a: "act \<longrightarrow> l \<noteq> [] \<and> h \<noteq> []"
    by blast
  show "set l \<union> set h = set cus" unfolding lh by auto
  show "set l \<inter> set h = {}" unfolding lh by auto
  show "distinct cus \<Longrightarrow> distinct l \<and> distinct h" unfolding lh by simp
  show "act \<Longrightarrow> l \<noteq> [] \<and> h \<noteq> []" using a by simp
qed

lemma fsync_node_plan_child:
  assumes "fsync_node_plan st cus dir th node = (l, h, act, by_y, cdir, cth, cnode)"
  shows "node = hv_fs_node \<Longrightarrow> cth = th \<and> cnode \<noteq> hv_fs_node"
    and "node \<noteq> hv_fs_node \<Longrightarrow> cth = th div 2 \<and> cnode = hv_fs_node"
  using fsync_node_plan_shape [OF assms] by auto

lemma fsync_levels_zero [simp]: "fsync_levels node 0 = 0"
  by (simp add: fsync_levels_def halvings.simps)

lemma fsync_levels_child:
  assumes "fsync_node_plan st cus dir th node = (l, h, act, by_y, cdir, cth, cnode)"
    and "th \<noteq> 0"
  shows "fsync_levels node th = Suc (fsync_levels cnode cth)"
proof -
  from \<open>th \<noteq> 0\<close> have nz: "unat th \<noteq> 0" by (simp add: unat_eq_zero)
  then have h: "halvings (unat th) = Suc (halvings (unat th div 2))"
    by (subst halvings.simps) simp
  show ?thesis
  proof (cases "node = hv_fs_node")
    case True
    with fsync_node_plan_child(1) [OF assms(1)] h show ?thesis
      by (simp add: fsync_levels_def)
  next
    case False
    with fsync_node_plan_child(2) [OF assms(1)] h show ?thesis
      by (simp add: fsync_levels_def unat_div)
  qed
qed

text \<open>Induction along the recursion of the engine: a node with threshold zero, and a node
  whose two children satisfy the property for every store and allocator count.\<close>

lemma fsync_subtree_induct [case_names leaf node]:
  assumes leaf: "\<And>k st cus dir th node. th < 1 \<Longrightarrow> P k st cus dir th node"
    and node: "\<And>k st cus dir th node l h act by_y cdir cth cnode.
        \<not> th < 1 \<Longrightarrow>
        fsync_node_plan st cus dir th node = (l, h, act, by_y, cdir, cth, cnode) \<Longrightarrow>
        (\<And>k' st'. P k' st' l cdir cth cnode) \<Longrightarrow>
        (\<And>k' st'. P k' st' h cdir cth cnode) \<Longrightarrow>
        P k st cus dir th node"
  shows "P k st cus dir th node"
proof (induction "2 * unat th + (if node = hv_fs_node then 1 else 0)"
         arbitrary: k st cus dir th node rule: less_induct)
  case less
  show ?case
  proof (cases "th < 1")
    case True
    then show ?thesis by (rule leaf)
  next
    case False
    then have nz: "unat th \<noteq> 0" by (simp add: unat_eq_zero word_less_1)
    obtain l h act by_y cdir cth cnode
      where plan: "fsync_node_plan st cus dir th node = (l, h, act, by_y, cdir, cth, cnode)"
      using prod_cases7 [where y = "fsync_node_plan st cus dir th node"] by blast
    have smaller: "2 * unat cth + (if cnode = hv_fs_node then 1 else 0)
                     < 2 * unat th + (if node = hv_fs_node then 1 else 0)"
    proof (cases "node = hv_fs_node")
      case True
      with fsync_node_plan_child(1) [OF plan] show ?thesis by simp
    next
      case False
      with fsync_node_plan_child(2) [OF plan] nz show ?thesis
        by (simp add: unat_div) arith
    qed
    show ?thesis
      by (rule node [OF False plan]) (rule less [OF smaller])+
  qed
qed

section \<open>One call of the engine\<close>

lemma fsync_subtree_leaf:
  "th < 1 \<Longrightarrow> fsync_partition_subtree alloc k st cus dir th node = (st, k, False)"
  by (subst fsync_partition_subtree_unfold) simp

lemma fsync_subtree_node_cases:
  assumes "\<not> th < 1"
    and "fsync_node_plan st cus dir th node = (l, h, act, by_y, cdir, cth, cnode)"
  obtains (fail) n where
      "fsync_partition_subtree alloc k st cus dir th node = (st, k + n, False)"
      "n = (if node = hv_fs_node then 4 else 2)" "\<not> (\<forall>j<n. alloc (k + j))"
    | (run) n st3 st4 k4 la st5 k5 ha where
      "st3 = fst (if by_y
                  then fsync_update_v_poss (fsync_update_cus_req
                         (fsync_update_cus_req st l dir node act) h dir node act) h th
                  else fsync_update_h_poss (fsync_update_cus_req
                         (fsync_update_cus_req st l dir node act) h dir node act) h th)"
      "fsync_partition_subtree alloc (k + n) st3 l cdir cth cnode = (st4, k4, la)"
      "fsync_partition_subtree alloc k4 st4 h cdir cth cnode = (st5, k5, ha)"
      "fsync_partition_subtree alloc k st cus dir th node = (st5, k5, act \<or> la \<or> ha)"
      "n = (if node = hv_fs_node then 4 else 2)"
proof -
  define n :: nat where "n = (if node = hv_fs_node then 4 else 2)"
  define st3 where "st3 = fst (if by_y
                  then fsync_update_v_poss (fsync_update_cus_req
                         (fsync_update_cus_req st l dir node act) h dir node act) h th
                  else fsync_update_h_poss (fsync_update_cus_req
                         (fsync_update_cus_req st l dir node act) h dir node act) h th)"
  show thesis
  proof (cases "\<forall>j<n. alloc (k + j)")
    case False
    then have "fsync_partition_subtree alloc k st cus dir th node = (st, k + n, False)"
      using assms(1) by (subst fsync_partition_subtree_unfold) (simp add: n_def Let_def)
    then show thesis using n_def False by (rule fail)
  next
    case True
    obtain st4 k4 la where c1: "fsync_partition_subtree alloc (k + n) st3 l cdir cth cnode = (st4, k4, la)"
      using prod_cases3 by blast
    obtain st5 k5 ha where c2: "fsync_partition_subtree alloc k4 st4 h cdir cth cnode = (st5, k5, ha)"
      using prod_cases3 by blast
    from True have T: "(\<exists>j<n. \<not> alloc (k + j)) = False" by simp
    have "fsync_partition_subtree alloc k st cus dir th node = (st5, k5, act \<or> la \<or> ha)"
      using assms c1 c2
      by (subst fsync_partition_subtree_unfold)
         (simp add: n_def [symmetric] st3_def [symmetric] Let_def T)
    with st3_def c1 c2 show thesis using n_def by (rule run)
  qed
qed

section \<open>What every call of the engine preserves\<close>

lemma fsync_req_kept_refl [simp]: "fsync_req_kept c c"
  by (simp add: fsync_req_kept_def)

lemma fsync_req_kept_trans:
  "fsync_req_kept a b \<Longrightarrow> fsync_req_kept b c \<Longrightarrow> fsync_req_kept a c"
  by (auto simp: fsync_req_kept_def)

lemma fsync_update_req_kept: "fsync_req_kept c (fsync_update_req dir node act c)"
  by (simp add: fsync_req_kept_def fsync_update_req_def Let_def)

lemma kept_all_refl [simp]: "list_all2 fsync_req_kept st st"
  by (simp add: list_all2_refl)

lemma kept_all_trans:
  assumes ab: "list_all2 fsync_req_kept a b" and bc: "list_all2 fsync_req_kept b c"
  shows "list_all2 fsync_req_kept a c"
  by (rule list_all2_trans [OF _ ab bc]) (rule fsync_req_kept_trans)

lemma kept_all_same_req:
  assumes "map fsync_req b = map fsync_req a"
  shows "list_all2 fsync_req_kept a b"
proof -
  from assms have len: "length b = length a" by (rule map_eq_imp_length_eq)
  have "fsync_req (b ! i) = fsync_req (a ! i)" if "i < length a" for i
    using assms that len by (metis nth_map)
  then show ?thesis
    using len by (simp add: list_all2_conv_all_nth fsync_req_kept_def)
qed

lemma fsync_update_cus_req_kept:
  "list_all2 fsync_req_kept st (fsync_update_cus_req st cus dir node act)"
  unfolding fsync_update_cus_req_def
proof (rule fold_upd_rel [where R = "list_all2 fsync_req_kept"])
  fix s :: "fsync_cu list" and p
  have "fsync_req_kept (s ! i) (s[p := fsync_update_req dir node act (s ! p)] ! i)"
    if "i < length s" for i
    using that by (cases "i = p") (simp_all add: fsync_update_req_kept)
  then show "list_all2 fsync_req_kept s (s[p := fsync_update_req dir node act (s ! p)])"
    by (simp add: list_all2_conv_all_nth)
qed (auto intro: kept_all_trans)

lemma fsync_plan_store_kept:
  "list_all2 fsync_req_kept st
     (fst (if by_y
           then fsync_update_v_poss (fsync_update_cus_req
                  (fsync_update_cus_req st l dir node act) h dir node act) h th
           else fsync_update_h_poss (fsync_update_cus_req
                  (fsync_update_cus_req st l dir node act) h dir node act) h th))"
proof -
  let ?st1 = "fsync_update_cus_req st l dir node act"
  let ?st2 = "fsync_update_cus_req ?st1 h dir node act"
  have "list_all2 fsync_req_kept st ?st2"
    by (rule kept_all_trans [OF fsync_update_cus_req_kept fsync_update_cus_req_kept])
  moreover have "list_all2 fsync_req_kept ?st2
      (fst (if by_y then fsync_update_v_poss ?st2 h th else fsync_update_h_poss ?st2 h th))"
    by (rule kept_all_same_req) simp
  ultimately show ?thesis by (rule kept_all_trans)
qed

lemma fsync_partition_subtree_kept:
  "list_all2 fsync_req_kept st (fst (fsync_partition_subtree alloc k st cus dir th node))"
proof (induction k st cus dir th node rule: fsync_subtree_induct)
  case (leaf k st cus dir th node)
  then show ?case by (simp add: fsync_subtree_leaf)
next
  case (node k st cus dir th node l h act by_y cdir cth cnode)
  from node(1,2) show ?case
  proof (cases rule: fsync_subtree_node_cases [where alloc = alloc and k = k])
    case (fail n)
    then show ?thesis by simp
  next
    case (run n st3 st4 k4 la st5 k5 ha)
    have "list_all2 fsync_req_kept st st3"
      unfolding run(1) by (rule fsync_plan_store_kept)
    moreover have "list_all2 fsync_req_kept st3
                     (fst (fsync_partition_subtree alloc (k + n) st3 l cdir cth cnode))"
      by (rule node(3))
    then have "list_all2 fsync_req_kept st3 st4"
      using run(2) by simp
    moreover have "list_all2 fsync_req_kept st4
                     (fst (fsync_partition_subtree alloc k4 st4 h cdir cth cnode))"
      by (rule node(4))
    then have "list_all2 fsync_req_kept st4 st5"
      using run(3) by simp
    ultimately show ?thesis
      using run(4) by (auto intro: kept_all_trans)
  qed
qed

lemma length_fsync_partition_subtree [simp]:
  "length (fst (fsync_partition_subtree alloc k st cus dir th node)) = length st"
  using fsync_partition_subtree_kept [of st alloc k cus dir th node]
  by (simp add: list_all2_lengthD)

lemma fsync_plan_store_frame:
  assumes "i \<notin> set l" "i \<notin> set h"
  shows "fst (if by_y
           then fsync_update_v_poss (fsync_update_cus_req
                  (fsync_update_cus_req st l dir node act) h dir node act) h th
           else fsync_update_h_poss (fsync_update_cus_req
                  (fsync_update_cus_req st l dir node act) h dir node act) h th) ! i = st ! i"
  using assms
  by (simp add: fsync_update_h_poss_frame fsync_update_v_poss_frame fsync_update_cus_req_frame)

lemma fsync_partition_subtree_frame:
  "i \<notin> set cus \<Longrightarrow> fst (fsync_partition_subtree alloc k st cus dir th node) ! i = st ! i"
proof (induction k st cus dir th node rule: fsync_subtree_induct)
  case (leaf k st cus dir th node)
  then show ?case by (simp add: fsync_subtree_leaf)
next
  case (node k st cus dir th node l h act by_y cdir cth cnode)
  from fsync_node_plan_sets(1) [OF node(2)] node.prems
  have out: "i \<notin> set l" "i \<notin> set h" by auto
  from node(1,2) show ?case
  proof (cases rule: fsync_subtree_node_cases [where alloc = alloc and k = k])
    case (fail n)
    then show ?thesis by simp
  next
    case (run n st3 st4 k4 la st5 k5 ha)
    have "st3 ! i = st ! i"
      unfolding run(1) using out by (rule fsync_plan_store_frame)
    moreover have "fst (fsync_partition_subtree alloc (k + n) st3 l cdir cth cnode) ! i = st3 ! i"
      by (rule node(3) [OF out(1)])
    then have "st4 ! i = st3 ! i"
      using run(2) by simp
    moreover have "fst (fsync_partition_subtree alloc k4 st4 h cdir cth cnode) ! i = st4 ! i"
      by (rule node(4) [OF out(2)])
    then have "st5 ! i = st4 ! i"
      using run(3) by simp
    ultimately show ?thesis
      using run(4) by simp
  qed
qed

section \<open>A call that reports no active node\<close>

lemma fsync_update_req_inactive_zero:
  "fs_req_aggr (fsync_req c) = 0 \<Longrightarrow> fsync_update_req dir node False c = c"
  by (simp add: fsync_update_req_def Let_def)

lemma fsync_update_cus_req_inactive_zero:
  assumes "\<forall>r\<in>set (map fsync_req st). fs_req_aggr r = 0"
  shows "fsync_update_cus_req st cus dir node False = st"
proof -
  have step: "st[p := fsync_update_req dir node False (st ! p)] = st" for p
  proof (cases "p < length st")
    case True
    with assms have "fs_req_aggr (fsync_req (st ! p)) = 0" by simp
    then show ?thesis by (simp add: fsync_update_req_inactive_zero)
  next
    case False
    then show ?thesis by (intro list_update_beyond) simp
  qed
  show ?thesis
    unfolding fsync_update_cus_req_def
    by (induction cus) (simp_all add: step)
qed

lemma fsync_partition_subtree_inactive:
  "\<forall>r\<in>set (map fsync_req st). fs_req_aggr r = 0 \<Longrightarrow>
   \<not> snd (snd (fsync_partition_subtree alloc k st cus dir th node)) \<Longrightarrow>
   map fsync_req (fst (fsync_partition_subtree alloc k st cus dir th node)) = map fsync_req st"
proof (induction k st cus dir th node rule: fsync_subtree_induct)
  case (leaf k st cus dir th node)
  then show ?case by (simp add: fsync_subtree_leaf)
next
  case (node k st cus dir th node l h act by_y cdir cth cnode)
  from node(1,2) show ?case
  proof (cases rule: fsync_subtree_node_cases [where alloc = alloc and k = k])
    case (fail n)
    then show ?thesis by simp
  next
    case (run n st3 st4 k4 la st5 k5 ha)
    from run(4) node.prems(2) have off: "\<not> act" "\<not> la" "\<not> ha" by simp_all
    have st3: "map fsync_req st3 = map fsync_req st"
      unfolding run(1) using off(1) node.prems(1)
      by (simp add: fsync_update_cus_req_inactive_zero)
    have "map fsync_req (fst (fsync_partition_subtree alloc (k + n) st3 l cdir cth cnode))
            = map fsync_req st3"
      using node.prems(1) off(2) run(2) by (intro node(3)) (simp_all add: st3)
    then have st4: "map fsync_req st4 = map fsync_req st" using run(2) st3 by simp
    have "map fsync_req (fst (fsync_partition_subtree alloc k4 st4 h cdir cth cnode))
            = map fsync_req st4"
      using node.prems(1) off(3) run(3) by (intro node(4)) (simp_all add: st4)
    then show ?thesis using run(3,4) st4 by simp
  qed
qed

section \<open>The store a node hands to its children\<close>

lemma fsync_update_req_pos [simp]:
  "x_pos (fsync_update_req dir node act c) = x_pos c"
  "y_pos (fsync_update_req dir node act c) = y_pos c"
  "cu_id (fsync_update_req dir node act c) = cu_id c"
  by (simp_all add: fsync_update_req_def Let_def)

lemma fsync_plan_store_nth:
  fixes by_y act :: bool and th :: uint and node :: fsync_node and dir :: fsync_dir
  assumes "distinct l" "distinct h" "set l \<inter> set h = {}" "i < length st"
  defines "st3 \<equiv> fst (if by_y
           then fsync_update_v_poss (fsync_update_cus_req
                  (fsync_update_cus_req st l dir node act) h dir node act) h th
           else fsync_update_h_poss (fsync_update_cus_req
                  (fsync_update_cus_req st l dir node act) h dir node act) h th)"
  shows "fsync_req (st3 ! i) =
           (if i \<in> set l \<union> set h then fsync_req (fsync_update_req dir node act (st ! i))
            else fsync_req (st ! i))"
    and "x_pos (st3 ! i) =
           (if i \<in> set h \<and> \<not> by_y then fst (fsync_update_pos (x_pos (st ! i)) th)
            else x_pos (st ! i))"
    and "y_pos (st3 ! i) =
           (if i \<in> set h \<and> by_y then fst (fsync_update_pos (y_pos (st ! i)) th)
            else y_pos (st ! i))"
proof -
  let ?st1 = "fsync_update_cus_req st l dir node act"
  let ?st2 = "fsync_update_cus_req ?st1 h dir node act"
  have st2: "?st2 ! i = (if i \<in> set l \<union> set h then fsync_update_req dir node act (st ! i)
                         else st ! i)"
    using assms(1-4) by (auto simp: fsync_update_cus_req_nth)
  have st3: "st3 ! i = (if i \<in> set h
                        then (if by_y
                              then (?st2 ! i)\<lparr>y_pos := fst (fsync_update_pos (y_pos (?st2 ! i)) th)\<rparr>
                              else (?st2 ! i)\<lparr>x_pos := fst (fsync_update_pos (x_pos (?st2 ! i)) th)\<rparr>)
                        else ?st2 ! i)"
    unfolding st3_def using assms(2,4)
    by (simp add: fsync_update_h_poss_nth fsync_update_v_poss_nth)
  show "fsync_req (st3 ! i) =
           (if i \<in> set l \<union> set h then fsync_req (fsync_update_req dir node act (st ! i))
            else fsync_req (st ! i))"
    unfolding st3 st2 by simp
  show "x_pos (st3 ! i) =
           (if i \<in> set h \<and> \<not> by_y then fst (fsync_update_pos (x_pos (st ! i)) th)
            else x_pos (st ! i))"
    unfolding st3 st2 by simp
  show "y_pos (st3 ! i) =
           (if i \<in> set h \<and> by_y then fst (fsync_update_pos (y_pos (st ! i)) th)
            else y_pos (st ! i))"
    unfolding st3 st2 by simp
qed

lemma length_fsync_plan_store [simp]:
  "length (fst (if by_y
           then fsync_update_v_poss (fsync_update_cus_req
                  (fsync_update_cus_req st l dir node act) h dir node act) h th
           else fsync_update_h_poss (fsync_update_cus_req
                  (fsync_update_cus_req st l dir node act) h dir node act) h th)) = length st"
  by simp

section \<open>CUs that share one position\<close>

lemma filter_const_empty:
  assumes "\<forall>i\<in>set cus. \<forall>j\<in>set cus. P i = P j"
  shows "filter P cus = [] \<or> filter (\<lambda>p. \<not> P p) cus = []"
proof (cases "\<exists>i\<in>set cus. P i")
  case True
  with assms have "\<forall>j\<in>set cus. P j" by blast
  then have "filter (\<lambda>p. \<not> P p) cus = []" by (simp only: filter_empty_conv not_not)
  then show ?thesis ..
next
  case False
  then have "filter P cus = []" by (simp only: filter_empty_conv bex_simps)
  then show ?thesis ..
qed

lemma fsync_partition_same_pos:
  assumes "\<forall>i\<in>set cus. \<forall>j\<in>set cus. x_pos (st ! i) = x_pos (st ! j) \<and> y_pos (st ! i) = y_pos (st ! j)"
  shows "\<not> snd (snd (fsync_partition_h_cus st cus th))"
    and "\<not> snd (snd (fsync_partition_v_cus st cus th))"
proof -
  have "filter (\<lambda>p. x_pos (st ! p) < th) cus = [] \<or> filter (\<lambda>p. \<not> x_pos (st ! p) < th) cus = []"
  proof (intro filter_const_empty ballI)
    fix i j assume "i \<in> set cus" "j \<in> set cus"
    with assms have "x_pos (st ! i) = x_pos (st ! j)" by blast
    then show "(x_pos (st ! i) < th) = (x_pos (st ! j) < th)" by (rule arg_cong)
  qed
  then show "\<not> snd (snd (fsync_partition_h_cus st cus th))"
    unfolding fsync_partition_h_cus_eq by auto
  have "filter (\<lambda>p. y_pos (st ! p) < th) cus = [] \<or> filter (\<lambda>p. \<not> y_pos (st ! p) < th) cus = []"
  proof (intro filter_const_empty ballI)
    fix i j assume "i \<in> set cus" "j \<in> set cus"
    with assms have "y_pos (st ! i) = y_pos (st ! j)" by blast
    then show "(y_pos (st ! i) < th) = (y_pos (st ! j) < th)" by (rule arg_cong)
  qed
  then show "\<not> snd (snd (fsync_partition_v_cus st cus th))"
    unfolding fsync_partition_v_cus_eq by auto
qed

lemma fsync_node_plan_same_pos:
  assumes "fsync_node_plan st cus dir th node = (l, h, act, by_y, cdir, cth, cnode)"
    and "\<forall>i\<in>set cus. \<forall>j\<in>set cus. x_pos (st ! i) = x_pos (st ! j) \<and> y_pos (st ! i) = y_pos (st ! j)"
  shows "\<not> act"
  using assms(1) fsync_partition_same_pos [OF assms(2), of th]
  by (cases rule: fsync_node_plan_cases) auto

lemma fsync_partition_subtree_same_pos:
  "distinct cus \<Longrightarrow> \<forall>i\<in>set cus. i < length st \<Longrightarrow>
   \<forall>i\<in>set cus. \<forall>j\<in>set cus. x_pos (st ! i) = x_pos (st ! j) \<and> y_pos (st ! i) = y_pos (st ! j) \<Longrightarrow>
   \<not> snd (snd (fsync_partition_subtree alloc k st cus dir th node))"
proof (induction k st cus dir th node rule: fsync_subtree_induct)
  case (leaf k st cus dir th node)
  from leaf(1) show ?case by (simp add: fsync_subtree_leaf)
next
  case (node k st cus dir th node l h act by_y cdir cth cnode)
  note sets = fsync_node_plan_sets [OF node(2)]
  from sets(3) node.prems(1) have dl: "distinct l" and dh: "distinct h" by simp_all
  from sets(1) have sub: "set l \<subseteq> set cus" "set h \<subseteq> set cus" by auto
  have off: "\<not> act" using node(2) node.prems(3) by (rule fsync_node_plan_same_pos)
  from node(1,2) show ?case
  proof (cases rule: fsync_subtree_node_cases [where alloc = alloc and k = k])
    case (fail n)
    then show ?thesis by simp
  next
    case (run n st3 st4 k4 la st5 k5 ha)
    have len3: "length st3 = length st" unfolding run(1) by simp
    have len4: "length st4 = length st"
      using length_fsync_partition_subtree [of alloc "k + n" st3 l cdir cth cnode] run(2) len3
      by simp
    have pos3: "x_pos (st3 ! i) =
                  (if i \<in> set h \<and> \<not> by_y then fst (fsync_update_pos (x_pos (st ! i)) th)
                   else x_pos (st ! i))"
               "y_pos (st3 ! i) =
                  (if i \<in> set h \<and> by_y then fst (fsync_update_pos (y_pos (st ! i)) th)
                   else y_pos (st ! i))"
      if "i \<in> set cus" for i
      unfolding run(1) using that node.prems(2) dl dh sets(2)
      by (simp_all add: fsync_plan_store_nth(2,3))
    have same_l: "\<forall>i\<in>set l. \<forall>j\<in>set l. x_pos (st3 ! i) = x_pos (st3 ! j) \<and> y_pos (st3 ! i) = y_pos (st3 ! j)"
    proof (intro ballI)
      fix i j assume ij: "i \<in> set l" "j \<in> set l"
      with sub(1) have c: "i \<in> set cus" "j \<in> set cus" by auto
      from ij sets(2) have nh: "i \<notin> set h" "j \<notin> set h" by auto
      have "x_pos (st3 ! i) = x_pos (st ! i)" "y_pos (st3 ! i) = y_pos (st ! i)"
           "x_pos (st3 ! j) = x_pos (st ! j)" "y_pos (st3 ! j) = y_pos (st ! j)"
        using nh by (simp_all add: pos3 [OF c(1)] pos3 [OF c(2)])
      moreover from node.prems(3) c
      have "x_pos (st ! i) = x_pos (st ! j) \<and> y_pos (st ! i) = y_pos (st ! j)" by blast
      ultimately show "x_pos (st3 ! i) = x_pos (st3 ! j) \<and> y_pos (st3 ! i) = y_pos (st3 ! j)"
        by simp
    qed
    have same_h3: "\<forall>i\<in>set h. \<forall>j\<in>set h. x_pos (st3 ! i) = x_pos (st3 ! j) \<and> y_pos (st3 ! i) = y_pos (st3 ! j)"
    proof (intro ballI)
      fix i j assume ij: "i \<in> set h" "j \<in> set h"
      with sub(2) have c: "i \<in> set cus" "j \<in> set cus" by auto
      from node.prems(3) c have e: "x_pos (st ! i) = x_pos (st ! j)" "y_pos (st ! i) = y_pos (st ! j)"
        by blast+
      show "x_pos (st3 ! i) = x_pos (st3 ! j) \<and> y_pos (st3 ! i) = y_pos (st3 ! j)"
        using ij e by (simp add: pos3 [OF c(1)] pos3 [OF c(2)])
    qed
    have "st4 ! i = st3 ! i" if "i \<in> set h" for i
    proof -
      from that sets(2) have "i \<notin> set l" by auto
      then have "fst (fsync_partition_subtree alloc (k + n) st3 l cdir cth cnode) ! i = st3 ! i"
        by (rule fsync_partition_subtree_frame)
      then show ?thesis using run(2) by simp
    qed
    then have same_h: "\<forall>i\<in>set h. \<forall>j\<in>set h. x_pos (st4 ! i) = x_pos (st4 ! j) \<and> y_pos (st4 ! i) = y_pos (st4 ! j)"
      using same_h3 by metis
    have rl: "\<forall>i\<in>set l. i < length st3" using sub(1) node.prems(2) len3 by auto
    have rh: "\<forall>i\<in>set h. i < length st4" using sub(2) node.prems(2) len4 by auto
    have "\<not> snd (snd (fsync_partition_subtree alloc (k + n) st3 l cdir cth cnode))"
      by (rule node(3) [OF dl rl same_l])
    then have "\<not> la" using run(2) by simp
    moreover have "\<not> snd (snd (fsync_partition_subtree alloc k4 st4 h cdir cth cnode))"
      by (rule node(4) [OF dh rh same_h])
    then have "\<not> ha" using run(3) by simp
    ultimately show ?thesis using off run(4) by simp
  qed
qed

section \<open>The aggregate grows by one bit per node\<close>

lemma aggr_step_bound:
  "unat (push_bit 1 a OR (if act then 1 else 0) :: uint) + 1 \<le> 2 * (unat a + 1)"
proof -
  have d: "unat (push_bit 1 a) \<le> 2 * unat a"
    by (simp add: push_bit_eq_mult unat_word_ariths)
  have "push_bit 1 a OR (1 :: uint) = push_bit 1 a + 1"
    by (simp add: or_one_eq)
  then have "unat (push_bit 1 a OR (1 :: uint)) \<le> unat (push_bit 1 a) + 1"
    by (simp add: unat_word_ariths)
  with d show ?thesis by (cases act) simp_all
qed

lemma fsync_update_req_aggr:
  "fs_req_aggr (fsync_req (fsync_update_req dir node act c)) =
     push_bit 1 (fs_req_aggr (fsync_req c)) OR (if act then 1 else 0)"
  by (simp add: fsync_update_req_def Let_def)

lemma fsync_partition_subtree_aggr_bound:
  "distinct cus \<Longrightarrow> i < length st \<Longrightarrow>
   unat (fs_req_aggr (fsync_req (fst (fsync_partition_subtree alloc k st cus dir th node) ! i))) + 1
     \<le> 2 ^ fsync_levels node th * (unat (fs_req_aggr (fsync_req (st ! i))) + 1)"
proof (induction k st cus dir th node rule: fsync_subtree_induct)
  case (leaf k st cus dir th node)
  from leaf(1) show ?case by (simp add: fsync_subtree_leaf)
next
  case (node k st cus dir th node l h act by_y cdir cth cnode)
  note sets = fsync_node_plan_sets [OF node(2)]
  from sets(3) node.prems(1) have dl: "distinct l" and dh: "distinct h" by simp_all
  from node(1) have nz: "th \<noteq> 0" by (simp add: word_less_1)
  have lv: "fsync_levels node th = Suc (fsync_levels cnode cth)"
    using node(2) nz by (rule fsync_levels_child)
  let ?a = "\<lambda>s. unat (fs_req_aggr (fsync_req (s ! i)))"
  from node(1,2) show ?case
  proof (cases rule: fsync_subtree_node_cases [where alloc = alloc and k = k])
    case (fail n)
    have "1 * (?a st + 1) \<le> 2 ^ fsync_levels node th * (?a st + 1)"
      by (intro mult_le_mono1) simp
    then have "?a st + 1 \<le> 2 ^ fsync_levels node th * (?a st + 1)" by (simp only: mult_1)
    with fail show ?thesis by (simp only: fst_conv)
  next
    case (run n st3 st4 k4 la st5 k5 ha)
    have len3: "length st3 = length st" unfolding run(1) by simp
    have len4: "length st4 = length st"
      using length_fsync_partition_subtree [of alloc "k + n" st3 l cdir cth cnode] run(2) len3
      by simp
    have r3: "fsync_req (st3 ! i) =
                (if i \<in> set l \<union> set h then fsync_req (fsync_update_req dir node act (st ! i))
                 else fsync_req (st ! i))"
      unfolding run(1) using dl dh sets(2) node.prems(2) by (rule fsync_plan_store_nth(1))
    have b3: "?a st3 + 1 \<le> 2 * (?a st + 1)"
      unfolding r3 using aggr_step_bound [of "fs_req_aggr (fsync_req (st ! i))" act]
      by (simp add: fsync_update_req_aggr)
    have il: "unat (fs_req_aggr (fsync_req (fst (fsync_partition_subtree alloc (k + n) st3 l cdir cth cnode) ! i))) + 1
                \<le> 2 ^ fsync_levels cnode cth * (?a st3 + 1)"
      using dl node.prems(2) len3 by (intro node(3)) simp_all
    have ih: "unat (fs_req_aggr (fsync_req (fst (fsync_partition_subtree alloc k4 st4 h cdir cth cnode) ! i))) + 1
                \<le> 2 ^ fsync_levels cnode cth * (?a st4 + 1)"
      using dh node.prems(2) len4 by (intro node(4)) simp_all
    have "?a st5 + 1 \<le> 2 ^ fsync_levels cnode cth * (?a st3 + 1)"
    proof (cases "i \<in> set l")
      case True
      with sets(2) have "i \<notin> set h" by auto
      then have "fst (fsync_partition_subtree alloc k4 st4 h cdir cth cnode) ! i = st4 ! i"
        by (rule fsync_partition_subtree_frame)
      then have "st5 ! i = st4 ! i" using run(3) by simp
      with il run(2) show ?thesis by simp
    next
      case False
      then have "fst (fsync_partition_subtree alloc (k + n) st3 l cdir cth cnode) ! i = st3 ! i"
        by (rule fsync_partition_subtree_frame)
      then have "st4 ! i = st3 ! i" using run(2) by simp
      with ih run(3) show ?thesis by simp
    qed
    also have "\<dots> \<le> 2 ^ fsync_levels cnode cth * (2 * (?a st + 1))"
      using b3 by (rule mult_le_mono2)
    finally show ?thesis using run(4) lv by (simp add: mult.assoc)
  qed
qed

lemma fsync_levels_root: "fsync_levels hv_fs_node FSYNC_DEFAULT_TH = 4"
  by (simp add: fsync_levels_def FSYNC_DEFAULT_TH_def FSYNC_N_CU_X_def halvings.simps)

section \<open>Three or more CUs: the call as a whole\<close>

lemma fsync_req_copy [simp]: "fsync_req (fsync_copy_req c t) = fsync_req t"
  by (simp add: fsync_copy_req_def)

lemma fsync_gen_reqs_many:
  assumes "2 < length cus"
  shows "fsync_gen_reqs alloc cus d =
     (if alloc 0 \<and> alloc 1
      then (map (\<lambda>i. fsync_copy_req (fsync_init_reqs cus ! i)
                   (fst (fsync_partition_subtree alloc 2 (fsync_init_reqs cus) [0..<length cus] d
                           FSYNC_DEFAULT_TH hv_fs_node) ! i)) [0..<length cus],
            snd (snd (fsync_partition_subtree alloc 2 (fsync_init_reqs cus) [0..<length cus] d
                           FSYNC_DEFAULT_TH hv_fs_node)))
      else (fsync_init_reqs cus, False))"
  using assms by (simp add: fsync_gen_reqs_def Let_def split: prod.splits)

lemma fsync_gen_reqs_many_fail:
  assumes "2 < length cus" and "\<not> (alloc 0 \<and> alloc 1)"
  shows "fsync_gen_reqs alloc cus d = (fsync_init_reqs cus, False)"
  unfolding fsync_gen_reqs_many [OF assms(1)] if_not_P [OF assms(2)] ..

lemma fsync_gen_reqs_many_run:
  assumes "2 < length cus" and "alloc 0 \<and> alloc 1"
  shows "map fsync_req (fst (fsync_gen_reqs alloc cus d)) =
           map fsync_req (fst (fsync_partition_subtree alloc 2 (fsync_init_reqs cus)
                                 [0..<length cus] d FSYNC_DEFAULT_TH hv_fs_node))"
    and "snd (fsync_gen_reqs alloc cus d) =
           snd (snd (fsync_partition_subtree alloc 2 (fsync_init_reqs cus)
                                 [0..<length cus] d FSYNC_DEFAULT_TH hv_fs_node))"
proof -
  let ?t = "fst (fsync_partition_subtree alloc 2 (fsync_init_reqs cus) [0..<length cus] d
                   FSYNC_DEFAULT_TH hv_fs_node)"
  have len: "length ?t = length cus" by simp
  have "map fsync_req (map (\<lambda>i. fsync_copy_req (fsync_init_reqs cus ! i) (?t ! i)) [0..<length cus])
          = map fsync_req ?t"
    by (rule nth_equalityI) (simp_all add: len)
  then show "map fsync_req (fst (fsync_gen_reqs alloc cus d)) = map fsync_req ?t"
    unfolding fsync_gen_reqs_many [OF assms(1)] if_P [OF assms(2)] by (simp only: fst_conv)
  show "snd (fsync_gen_reqs alloc cus d) =
           snd (snd (fsync_partition_subtree alloc 2 (fsync_init_reqs cus)
                                 [0..<length cus] d FSYNC_DEFAULT_TH hv_fs_node))"
    unfolding fsync_gen_reqs_many [OF assms(1)] if_P [OF assms(2)] by (simp only: snd_conv)
qed

lemma fsync_init_reqs_zero: "\<forall>r\<in>set (map fsync_req (fsync_init_reqs cus)). fs_req_aggr r = 0"
  by (simp add: fsync_init_reqs_req fsync_default_req_def)

lemma fsync_init_reqs_nth_req:
  "i < length cus \<Longrightarrow> fsync_req (fsync_init_reqs cus ! i) = fsync_default_req"
  by (simp add: fsync_init_reqs_def fsync_init_req_def fsync_default_req_def)

lemma fsync_init_reqs_nth_pos:
  "i < length cus \<Longrightarrow> x_pos (fsync_init_reqs cus ! i) = x_pos (cus ! i)"
  "i < length cus \<Longrightarrow> y_pos (fsync_init_reqs cus ! i) = y_pos (cus ! i)"
  by (simp_all add: fsync_init_reqs_def fsync_init_req_def)

lemma fsync_gen_reqs_many_false:
  assumes "2 < length cus" and "\<not> snd (fsync_gen_reqs alloc cus d)"
  shows "map fsync_req (fst (fsync_gen_reqs alloc cus d)) = replicate (length cus) fsync_default_req"
proof (cases "alloc 0 \<and> alloc 1")
  case True
  note run = fsync_gen_reqs_many_run [OF assms(1) True, of d]
  from assms(2) have off: "\<not> snd (snd (fsync_partition_subtree alloc 2 (fsync_init_reqs cus)
                             [0..<length cus] d FSYNC_DEFAULT_TH hv_fs_node))"
    unfolding run(2) .
  have "map fsync_req (fst (fsync_partition_subtree alloc 2 (fsync_init_reqs cus)
                               [0..<length cus] d FSYNC_DEFAULT_TH hv_fs_node))
          = map fsync_req (fsync_init_reqs cus)"
    using fsync_init_reqs_zero off by (rule fsync_partition_subtree_inactive)
  then show ?thesis
    unfolding run(1) by (simp only: fsync_init_reqs_req)
next
  case False
  show ?thesis
    unfolding fsync_gen_reqs_many_fail [OF assms(1) False] by (simp add: fsync_init_reqs_req)
qed

lemma fsync_gen_reqs_many_bound:
  assumes "2 < length cus" and "c \<in> set (fst (fsync_gen_reqs alloc cus d))"
  shows "fs_req_aggr (fsync_req c) < 16"
proof (cases "alloc 0 \<and> alloc 1")
  case True
  note run = fsync_gen_reqs_many_run [OF assms(1) True, of d]
  let ?t = "fst (fsync_partition_subtree alloc 2 (fsync_init_reqs cus) [0..<length cus] d
                   FSYNC_DEFAULT_TH hv_fs_node)"
  have len: "length ?t = length cus" by simp
  from assms(2) have "fsync_req c \<in> set (map fsync_req (fst (fsync_gen_reqs alloc cus d)))"
    by simp
  then have "fsync_req c \<in> set (map fsync_req ?t)" unfolding run(1) .
  then obtain i where i: "i < length cus" "fsync_req c = fsync_req (?t ! i)"
    using len by (auto simp: in_set_conv_nth)
  have "unat (fs_req_aggr (fsync_req (?t ! i))) + 1
          \<le> 2 ^ fsync_levels hv_fs_node FSYNC_DEFAULT_TH
              * (unat (fs_req_aggr (fsync_req (fsync_init_reqs cus ! i))) + 1)"
    using i(1) by (intro fsync_partition_subtree_aggr_bound) simp_all
  then have "unat (fs_req_aggr (fsync_req c)) < 16"
    using i by (simp add: fsync_levels_root fsync_init_reqs_nth_req fsync_default_req_def)
  then show ?thesis by (simp add: word_less_nat_alt)
next
  case False
  from assms(2) have "c \<in> set (fsync_init_reqs cus)"
    unfolding fsync_gen_reqs_many_fail [OF assms(1) False] by (simp only: fst_conv)
  then show ?thesis by (auto simp: fsync_init_reqs_def fsync_init_req_def)
qed

lemma fsync_gen_reqs_many_same_pos:
  assumes "2 < length cus"
    and same: "\<forall>c\<in>set cus. \<forall>c'\<in>set cus. x_pos c = x_pos c' \<and> y_pos c = y_pos c'"
  shows "\<not> snd (fsync_gen_reqs alloc cus d)"
proof (cases "alloc 0 \<and> alloc 1")
  case True
  have "\<forall>i\<in>set [0..<length cus]. \<forall>j\<in>set [0..<length cus].
          x_pos (fsync_init_reqs cus ! i) = x_pos (fsync_init_reqs cus ! j) \<and>
          y_pos (fsync_init_reqs cus ! i) = y_pos (fsync_init_reqs cus ! j)"
  proof (intro ballI)
    fix i j assume "i \<in> set [0..<length cus]" "j \<in> set [0..<length cus]"
    then have ij: "i < length cus" "j < length cus" by simp_all
    then have "cus ! i \<in> set cus" "cus ! j \<in> set cus" by simp_all
    with same have "x_pos (cus ! i) = x_pos (cus ! j) \<and> y_pos (cus ! i) = y_pos (cus ! j)"
      by blast
    then show "x_pos (fsync_init_reqs cus ! i) = x_pos (fsync_init_reqs cus ! j) \<and>
               y_pos (fsync_init_reqs cus ! i) = y_pos (fsync_init_reqs cus ! j)"
      using ij by (simp add: fsync_init_reqs_nth_pos)
  qed
  moreover have "distinct [0..<length cus]" by simp
  moreover have "\<forall>i\<in>set [0..<length cus]. i < length (fsync_init_reqs cus)" by simp
  ultimately have "\<not> snd (snd (fsync_partition_subtree alloc 2 (fsync_init_reqs cus)
                             [0..<length cus] d FSYNC_DEFAULT_TH hv_fs_node))"
    by (intro fsync_partition_subtree_same_pos)
  then show ?thesis unfolding fsync_gen_reqs_many_run(2) [OF assms(1) True] .
next
  case False
  show ?thesis unfolding fsync_gen_reqs_many_fail [OF assms(1) False] by simp
qed

section \<open>The hop loop of the two-CU branch\<close>

lemma fsync_walk_loop_done: "done_flag w \<Longrightarrow> fsync_walk_loop w = w"
  by (subst fsync_walk_loop.simps) simp

lemma fsync_walk_loop_step: "\<not> done_flag w \<Longrightarrow> fsync_walk_loop w = fsync_walk_loop (fsync_walk_body w)"
  by (subst fsync_walk_loop.simps) simp

lemma snd_fsync_update_pos [simp]: "snd (fsync_update_pos p th) = th div 2"
  by (simp add: fsync_update_pos_def)

lemma fsync_walk_body_lit:
  "fsync_walk_body \<lparr>hops = hp, x_th = xt, y_th = yt, x_p0 = a, x_p1 = b, y_p0 = c, y_p1 = d,
                    done_flag = dn\<rparr> =
     (let px = (fsync_same_subtree a b xt \<and> xt > 0);
          py = (fsync_same_subtree c d yt \<and> yt > 0)
      in \<lparr>hops = hp - of_bool px - of_bool py,
          x_th = (if px then xt div 2 else xt),
          y_th = (if py then yt div 2 else yt),
          x_p0 = (if px then fst (fsync_update_pos a xt) else a),
          x_p1 = (if px then fst (fsync_update_pos b xt) else b),
          y_p0 = (if py then fst (fsync_update_pos c yt) else c),
          y_p1 = (if py then fst (fsync_update_pos d yt) else d),
          done_flag = (dn \<or> \<not> px \<or> \<not> py)\<rparr>)"
  by (cases "fsync_same_subtree a b xt"; cases "xt > 0";
      cases "fsync_same_subtree c d yt"; cases "yt > 0")
     (simp_all add: fsync_walk_body_def Let_def)

lemma fsync_walk_loop_round:
  "\<not> dn \<Longrightarrow>
   fsync_walk_loop \<lparr>hops = hp, x_th = xt, y_th = yt, x_p0 = a, x_p1 = b, y_p0 = c, y_p1 = d,
                    done_flag = dn\<rparr> =
     (let px = (fsync_same_subtree a b xt \<and> xt > 0);
          py = (fsync_same_subtree c d yt \<and> yt > 0);
          w = \<lparr>hops = hp - of_bool px - of_bool py,
               x_th = (if px then xt div 2 else xt),
               y_th = (if py then yt div 2 else yt),
               x_p0 = (if px then fst (fsync_update_pos a xt) else a),
               x_p1 = (if px then fst (fsync_update_pos b xt) else b),
               y_p0 = (if py then fst (fsync_update_pos c yt) else c),
               y_p1 = (if py then fst (fsync_update_pos d yt) else d),
               done_flag = (\<not> px \<or> \<not> py)\<rparr>
      in if px \<and> py then fsync_walk_loop w else w)"
  by (cases "fsync_same_subtree a b xt"; cases "xt > 0";
      cases "fsync_same_subtree c d yt"; cases "yt > 0")
     (simp_all add: fsync_walk_loop_step fsync_walk_body_lit Let_def fsync_walk_loop_done)

lemma fsync_pair_hops_eq:
  "fsync_pair_hops c0 c1 =
     (let A1 = fsync_same_subtree (x_pos c0) (x_pos c1) 2;
          B1 = fsync_same_subtree (y_pos c0) (y_pos c1) 2;
          A2 = fsync_same_subtree (fst (fsync_update_pos (x_pos c0) 2))
                 (fst (fsync_update_pos (x_pos c1) 2)) 1;
          B2 = fsync_same_subtree (fst (fsync_update_pos (y_pos c0) 2))
                 (fst (fsync_update_pos (y_pos c1) 2)) 1
      in 4 - of_bool A1 - of_bool B1 - of_bool (A1 \<and> B1 \<and> A2) - of_bool (A1 \<and> B1 \<and> B2))"
  unfolding fsync_pair_hops_def fsync_walk_init_def FSYNC_N_LVL_def FSYNC_N_CU_X_def FSYNC_N_CU_Y_def
  apply (cases "fsync_same_subtree (x_pos c0) (x_pos c1) 2";
         cases "fsync_same_subtree (y_pos c0) (y_pos c1) 2";
         cases "fsync_same_subtree (fst (fsync_update_pos (x_pos c0) 2))
                 (fst (fsync_update_pos (x_pos c1) 2)) 1";
         cases "fsync_same_subtree (fst (fsync_update_pos (y_pos c0) 2))
                 (fst (fsync_update_pos (y_pos c1) 2)) 1")
  apply (simp_all add: fsync_walk_loop_round Let_def)
  done

lemma spec_axis_steps_2:
  "spec_axis_steps a b 2 =
     (if fsync_same_subtree a b 2
      then (if fsync_same_subtree (fst (fsync_update_pos a 2)) (fst (fsync_update_pos b 2)) 1
            then 2 else 1)
      else 0)"
  apply (subst spec_axis_steps.simps)
  apply (subst spec_axis_steps.simps)
  apply (subst spec_axis_steps.simps)
  apply simp
  done

lemma fsync_pair_hops_range:
  "fsync_pair_hops c0 c1 = 0 \<or> fsync_pair_hops c0 c1 = 1 \<or> fsync_pair_hops c0 c1 = 2 \<or>
   fsync_pair_hops c0 c1 = 3 \<or> fsync_pair_hops c0 c1 = 4"
  unfolding fsync_pair_hops_eq Let_def
  by (cases "fsync_same_subtree (x_pos c0) (x_pos c1) 2";
      cases "fsync_same_subtree (y_pos c0) (y_pos c1) 2";
      cases "fsync_same_subtree (fst (fsync_update_pos (x_pos c0) 2))
                 (fst (fsync_update_pos (x_pos c1) 2)) 1";
      cases "fsync_same_subtree (fst (fsync_update_pos (y_pos c0) 2))
                 (fst (fsync_update_pos (y_pos c1) 2)) 1") simp_all

lemma fsync_pair_hops_low:
  "(\<not> fsync_pair_hops c0 c1 > 1) =
     (fsync_same_subtree (x_pos c0) (x_pos c1) 2 \<and> fsync_same_subtree (y_pos c0) (y_pos c1) 2 \<and>
      (fsync_same_subtree (fst (fsync_update_pos (x_pos c0) 2))
                 (fst (fsync_update_pos (x_pos c1) 2)) 1 \<or>
       fsync_same_subtree (fst (fsync_update_pos (y_pos c0) 2))
                 (fst (fsync_update_pos (y_pos c1) 2)) 1))"
  unfolding fsync_pair_hops_eq Let_def
  by (cases "fsync_same_subtree (x_pos c0) (x_pos c1) 2";
      cases "fsync_same_subtree (y_pos c0) (y_pos c1) 2";
      cases "fsync_same_subtree (fst (fsync_update_pos (x_pos c0) 2))
                 (fst (fsync_update_pos (x_pos c1) 2)) 1";
      cases "fsync_same_subtree (fst (fsync_update_pos (y_pos c0) 2))
                 (fst (fsync_update_pos (y_pos c1) 2)) 1") simp_all

lemma uint_less_4_cases:
  fixes x :: uint
  assumes "x < 4"
  shows "x = 0 \<or> x = 1 \<or> x = 2 \<or> x = 3"
proof -
  from assms have "unat x < 4" by (simp add: word_less_nat_alt)
  then consider "unat x = 0" | "unat x = 1" | "unat x = 2" | "unat x = 3" by linarith
  then show ?thesis
    using word_unat_eq_iff [of x 0] word_unat_eq_iff [of x 1] word_unat_eq_iff [of x 2]
      word_unat_eq_iff [of x 3]
    by cases simp_all
qed

lemma same_halves_in_grid:
  fixes a b :: uint
  assumes "a < 4" "b < 4" "fsync_same_subtree a b 2"
  shows "abs_diff a b \<le> 1"
    and "fsync_same_subtree (fst (fsync_update_pos a 2)) (fst (fsync_update_pos b 2)) 1 \<Longrightarrow> a = b"
  using uint_less_4_cases [OF assms(1)] uint_less_4_cases [OF assms(2)] assms(3)
  by (auto simp: fsync_same_subtree_def fsync_update_pos_def abs_diff_def
        word_le_nat_alt word_less_nat_alt)

section \<open>Two CUs: the call as a whole\<close>

lemma fsync_pair_axis_eq:
  "fsync_pair_axis xd yd d c0 c1 =
     (fsync_pair_dir xd yd d, set_req_node (fsync_pair_tag xd yd) c0,
      set_req_node (fsync_pair_tag xd yd) c1)"
  by (simp add: fsync_pair_axis_def fsync_pair_dir_def fsync_pair_tag_def)

lemma fsync_pair_hops_pos:
  "x_pos a = x_pos c0 \<Longrightarrow> y_pos a = y_pos c0 \<Longrightarrow> x_pos b = x_pos c1 \<Longrightarrow> y_pos b = y_pos c1 \<Longrightarrow>
   fsync_pair_hops a b = fsync_pair_hops c0 c1"
  by (simp add: fsync_pair_hops_def fsync_walk_init_def)

text \<open>The request a pair ends with, per branch of lines 174-236.\<close>

lemma fsync_gen_pair_zero:
  "fsync_x_dist c0 c1 + fsync_y_dist c0 c1 = 0 \<Longrightarrow> fsync_gen_pair c0 c1 d = ([c0, c1], False)"
  by (simp add: fsync_gen_pair_def fsync_x_dist_def fsync_y_dist_def Let_def)

lemma fsync_gen_pair_nbr:
  assumes "fsync_x_dist c0 c1 + fsync_y_dist c0 c1 = 1"
  shows "fsync_gen_pair c0 c1 d =
     (map (\<lambda>c. set_req_id
                 (if fsync_pair_dir (fsync_x_dist c0 c1) (fsync_y_dist c0 c1) d = h_fs_dir
                  then (if fsync_nbr_node (x_pos c0) (x_pos c1) then 2 else 0)
                  else (if fsync_nbr_node (y_pos c0) (y_pos c1) then 3 else 1))
                 (set_req_aggr 1
                   (set_req_node (fsync_pair_tag (fsync_x_dist c0 c1) (fsync_y_dist c0 c1)) c)))
        [c0, c1], True)"
  using assms
  by (simp add: fsync_gen_pair_def fsync_x_dist_def fsync_y_dist_def Let_def fsync_pair_axis_eq
        fsync_pair_nbr_def)

lemma fsync_gen_pair_far:
  assumes "fsync_x_dist c0 c1 + fsync_y_dist c0 c1 \<noteq> 0"
    and "fsync_x_dist c0 c1 + fsync_y_dist c0 c1 \<noteq> 1"
  shows "fsync_gen_pair c0 c1 d =
     (if fsync_pair_hops c0 c1 > 1
      then (map (\<lambda>c. set_req_node
                        (if fsync_pair_dir (fsync_x_dist c0 c1) (fsync_y_dist c0 c1) d = h_fs_dir
                         then h_fs_node else v_fs_node)
                      (set_req_id
                        (if fsync_pair_dir (fsync_x_dist c0 c1) (fsync_y_dist c0 c1) d = h_fs_dir
                         then 0 else 1)
                        (set_req_aggr (push_bit (unat (fsync_pair_hops c0 c1 - 1)) 1)
                          (set_req_node (fsync_pair_tag (fsync_x_dist c0 c1) (fsync_y_dist c0 c1)) c))))
              [c0, c1], True)
      else (map (set_req_node (fsync_pair_tag (fsync_x_dist c0 c1) (fsync_y_dist c0 c1))) [c0, c1],
            False))"
proof -
  have h: "fsync_pair_hops (set_req_node n c0) (set_req_node n c1) = fsync_pair_hops c0 c1" for n
    by (rule fsync_pair_hops_pos) simp_all
  show ?thesis
    using assms
    by (simp add: fsync_gen_pair_def fsync_x_dist_def fsync_y_dist_def Let_def fsync_pair_axis_eq
          fsync_pair_far_def fsync_pair_hops_def [symmetric] h [unfolded fsync_x_dist_def fsync_y_dist_def])
qed

lemma fsync_gen_reqs_two:
  "fsync_gen_reqs alloc [a, b] d = fsync_gen_pair (fsync_init_req a) (fsync_init_req b) d"
  by (simp add: fsync_gen_reqs_def fsync_init_reqs_def Let_def)

lemma fsync_init_req_fields [simp]:
  "x_pos (fsync_init_req c) = x_pos c" "y_pos (fsync_init_req c) = y_pos c"
  "cu_id (fsync_init_req c) = cu_id c" "fsync_req (fsync_init_req c) = fsync_default_req"
  by (simp_all add: fsync_init_req_def fsync_default_req_def)

lemma fsync_dist_init [simp]:
  "fsync_x_dist (fsync_init_req a) (fsync_init_req b) = fsync_x_dist a b"
  "fsync_y_dist (fsync_init_req a) (fsync_init_req b) = fsync_y_dist a b"
  "fsync_pair_hops (fsync_init_req a) (fsync_init_req b) = fsync_pair_hops a b"
  by (simp_all add: fsync_x_dist_def fsync_y_dist_def fsync_pair_hops_def fsync_walk_init_def)

lemma set_req_init [simp]:
  "fsync_req (set_req_node n c) = (fsync_req c)\<lparr>req_node := n\<rparr>"
  "fsync_req (set_req_id i c) = (fsync_req c)\<lparr>fs_req_id := i\<rparr>"
  "fsync_req (set_req_aggr g c) = (fsync_req c)\<lparr>fs_req_aggr := g\<rparr>"
  by (simp_all add: set_req_node_def set_req_id_def set_req_aggr_def)

text \<open>The three outcomes of a call on two CUs, as requests.\<close>

lemma fsync_gen_reqs_two_cases:
  obtains
    (zero) "fsync_x_dist a b + fsync_y_dist a b = 0"
      "\<not> snd (fsync_gen_reqs alloc [a, b] d)"
      "map fsync_req (fst (fsync_gen_reqs alloc [a, b] d)) = [fsync_default_req, fsync_default_req]"
  | (nbr) r where "fsync_x_dist a b + fsync_y_dist a b = 1"
      "snd (fsync_gen_reqs alloc [a, b] d)"
      "map fsync_req (fst (fsync_gen_reqs alloc [a, b] d)) = [r, r]"
      "r = \<lparr>fs_req_aggr = 1,
            fs_req_id = (if fsync_pair_dir (fsync_x_dist a b) (fsync_y_dist a b) d = h_fs_dir
                         then (if fsync_nbr_node (x_pos a) (x_pos b) then 2 else 0)
                         else (if fsync_nbr_node (y_pos a) (y_pos b) then 3 else 1)),
            req_node = fsync_pair_tag (fsync_x_dist a b) (fsync_y_dist a b)\<rparr>"
  | (far) r where "fsync_x_dist a b + fsync_y_dist a b \<noteq> 0"
      "fsync_x_dist a b + fsync_y_dist a b \<noteq> 1" "fsync_pair_hops a b > 1"
      "snd (fsync_gen_reqs alloc [a, b] d)"
      "map fsync_req (fst (fsync_gen_reqs alloc [a, b] d)) = [r, r]"
      "r = \<lparr>fs_req_aggr = push_bit (unat (fsync_pair_hops a b - 1)) 1,
            fs_req_id = (if fsync_pair_dir (fsync_x_dist a b) (fsync_y_dist a b) d = h_fs_dir
                         then 0 else 1),
            req_node = (if fsync_pair_dir (fsync_x_dist a b) (fsync_y_dist a b) d = h_fs_dir
                        then h_fs_node else v_fs_node)\<rparr>"
  | (low) r where "fsync_x_dist a b + fsync_y_dist a b \<noteq> 0"
      "fsync_x_dist a b + fsync_y_dist a b \<noteq> 1" "\<not> fsync_pair_hops a b > 1"
      "\<not> snd (fsync_gen_reqs alloc [a, b] d)"
      "map fsync_req (fst (fsync_gen_reqs alloc [a, b] d)) = [r, r]"
      "r = \<lparr>fs_req_aggr = 0, fs_req_id = 0,
            req_node = fsync_pair_tag (fsync_x_dist a b) (fsync_y_dist a b)\<rparr>"
proof (cases "fsync_x_dist a b + fsync_y_dist a b = 0")
  case True
  then have "fsync_gen_reqs alloc [a, b] d = ([fsync_init_req a, fsync_init_req b], False)"
    by (simp add: fsync_gen_reqs_two fsync_gen_pair_zero)
  with True show thesis by (intro zero) simp_all
next
  case nz: False
  show thesis
  proof (cases "fsync_x_dist a b + fsync_y_dist a b = 1")
    case True
    note eq = fsync_gen_pair_nbr [of "fsync_init_req a" "fsync_init_req b" d, unfolded fsync_dist_init,
        OF True]
    show thesis
      by (rule nbr [OF True]) (simp_all add: fsync_gen_reqs_two eq fsync_default_req_def)
  next
    case n1: False
    note eq = fsync_gen_pair_far [of "fsync_init_req a" "fsync_init_req b" d, unfolded fsync_dist_init,
        OF nz n1]
    show thesis
    proof (cases "fsync_pair_hops a b > 1")
      case True
      show thesis
        by (rule far [OF nz n1 True]) (simp_all add: fsync_gen_reqs_two eq True fsync_default_req_def)
    next
      case False
      show thesis
        by (rule low [OF nz n1 False]) (simp_all add: fsync_gen_reqs_two eq False fsync_default_req_def)
    qed
  qed
qed

section \<open>Two CUs at Manhattan distance 1\<close>

lemma uint_abs_diff: "uint (abs_diff a b) = \<bar>uint a - uint b\<bar>"
proof (cases "a > b")
  case True
  then have "uint b \<le> uint a" by (simp add: word_less_def)
  then have "uint (a - b) = uint a - uint b" by (simp add: uint_sub_lem)
  with True \<open>uint b \<le> uint a\<close> show ?thesis by (simp add: abs_diff_def)
next
  case False
  then have le: "uint a \<le> uint b" by (simp add: word_less_def not_less)
  then have "uint (b - a) = uint b - uint a" by (simp add: uint_sub_lem)
  with False le show ?thesis by (simp add: abs_diff_def)
qed

lemma abs_diff_eq_0 [simp]: "(abs_diff a b = 0) = (a = b)"
  by (auto simp: abs_diff_def)

lemma abs_diff_self [simp]: "abs_diff a a = 0"
  by (simp add: abs_diff_def)

lemma fsync_manhattan_one:
  assumes "fsync_manhattan a b = 1"
  shows "(fsync_x_dist a b = 1 \<and> fsync_y_dist a b = 0) \<or>
         (fsync_x_dist a b = 0 \<and> fsync_y_dist a b = 1)"
proof -
  have "uint (fsync_x_dist a b) + uint (fsync_y_dist a b) = 1"
    using assms by (simp add: fsync_manhattan_def fsync_x_dist_def fsync_y_dist_def uint_abs_diff)
  moreover have "0 \<le> uint (fsync_x_dist a b)" "0 \<le> uint (fsync_y_dist a b)" by simp_all
  ultimately have "(uint (fsync_x_dist a b) = 1 \<and> uint (fsync_y_dist a b) = 0) \<or>
                   (uint (fsync_x_dist a b) = 0 \<and> uint (fsync_y_dist a b) = 1)"
    by linarith
  then show ?thesis
    using word_uint_eq_iff [of "fsync_x_dist a b" 0] word_uint_eq_iff [of "fsync_x_dist a b" 1]
      word_uint_eq_iff [of "fsync_y_dist a b" 0] word_uint_eq_iff [of "fsync_y_dist a b" 1]
    by auto
qed

lemma fsync_nbr_node_odd: "fsync_nbr_node p q = odd (min p q)"
proof -
  have low: "(w AND 1 \<noteq> 0) = odd w" for w :: uint
    by (simp add: and_one_eq even_iff_mod_2_eq_zero)
  show ?thesis
    by (cases "p < q") (auto simp: fsync_nbr_node_def min_def low)
qed

text \<open>
  Claim C5.  For every call on exactly two CUs at Manhattan distance 1 the call succeeds, both
  CUs end with the same request, its aggregate is 1, and its id and node depend only on the
  axis on which the two differ and on the parity of the smaller coordinate on that axis:
  Horizontal with id 2 (odd) or 0 (even) when the x coordinates differ, Vertical with id 3
  (odd) or 1 (even) when the y coordinates differ.
\<close>

theorem fsync_gen_reqs_neighbours:
  assumes "fsync_manhattan a b = 1"
  shows "snd (fsync_gen_reqs alloc [a, b] default_dir) \<and>
         map fsync_req (fst (fsync_gen_reqs alloc [a, b] default_dir)) =
           (if x_pos a \<noteq> x_pos b
            then [\<lparr>fs_req_aggr = 1, fs_req_id = (if odd (min (x_pos a) (x_pos b)) then 2 else 0),
                   req_node = h_fs_node\<rparr>,
                  \<lparr>fs_req_aggr = 1, fs_req_id = (if odd (min (x_pos a) (x_pos b)) then 2 else 0),
                   req_node = h_fs_node\<rparr>]
            else [\<lparr>fs_req_aggr = 1, fs_req_id = (if odd (min (y_pos a) (y_pos b)) then 3 else 1),
                   req_node = v_fs_node\<rparr>,
                  \<lparr>fs_req_aggr = 1, fs_req_id = (if odd (min (y_pos a) (y_pos b)) then 3 else 1),
                   req_node = v_fs_node\<rparr>])"
proof -
  from fsync_manhattan_one [OF assms] consider
      (x) "fsync_x_dist a b = 1" "fsync_y_dist a b = 0"
    | (y) "fsync_x_dist a b = 0" "fsync_y_dist a b = 1" by blast
  then show ?thesis
  proof cases
    case x
    then have ne: "x_pos a \<noteq> x_pos b" by (auto simp: fsync_x_dist_def)
    from x have one: "fsync_x_dist a b + fsync_y_dist a b = 1" by simp
    show ?thesis
    proof (cases rule: fsync_gen_reqs_two_cases [of a b alloc default_dir])
      case (nbr r)
      then show ?thesis
        using x ne by (simp add: fsync_pair_dir_def fsync_pair_tag_def fsync_nbr_node_odd)
    qed (use one in simp_all)
  next
    case y
    then have eq: "x_pos a = x_pos b" by (simp add: fsync_x_dist_def)
    from y have one: "fsync_x_dist a b + fsync_y_dist a b = 1" by simp
    show ?thesis
    proof (cases rule: fsync_gen_reqs_two_cases [of a b alloc default_dir])
      case (nbr r)
      then show ?thesis
        using y eq by (simp add: fsync_pair_dir_def fsync_pair_tag_def fsync_nbr_node_odd)
    qed (use one in simp_all)
  qed
qed

theorem fsync_gen_reqs_neighbours_witness:
  "fsync_manhattan (test_cu 5 1 1) (test_cu 6 1 2) = 1 \<and>
   fsync_gen_reqs alloc_ok [test_cu 5 1 1, test_cu 6 1 2] v_fs_dir =
     ([\<lparr>cu_id = 5, y_pos = 1, x_pos = 1,
        fsync_req = \<lparr>fs_req_aggr = 1, fs_req_id = 2, req_node = h_fs_node\<rparr>\<rparr>,
       \<lparr>cu_id = 6, y_pos = 1, x_pos = 2,
        fsync_req = \<lparr>fs_req_aggr = 1, fs_req_id = 2, req_node = h_fs_node\<rparr>\<rparr>], True)"
proof -
  have m: "fsync_manhattan (test_cu 5 1 1) (test_cu 6 1 2) = 1"
    by (simp add: fsync_manhattan_def test_cu_def)
  have f: "map cu_id (fst (fsync_gen_reqs alloc_ok [test_cu 5 1 1, test_cu 6 1 2] v_fs_dir)) = [5, 6]"
          "map x_pos (fst (fsync_gen_reqs alloc_ok [test_cu 5 1 1, test_cu 6 1 2] v_fs_dir)) = [1, 2]"
          "map y_pos (fst (fsync_gen_reqs alloc_ok [test_cu 5 1 1, test_cu 6 1 2] v_fs_dir)) = [1, 1]"
    by (simp_all add: fsync_gen_reqs_fields fsync_gen_pair_fields test_cu_def)
  from fsync_gen_reqs_neighbours [OF m, of alloc_ok v_fs_dir]
  have r: "snd (fsync_gen_reqs alloc_ok [test_cu 5 1 1, test_cu 6 1 2] v_fs_dir)"
    "map fsync_req (fst (fsync_gen_reqs alloc_ok [test_cu 5 1 1, test_cu 6 1 2] v_fs_dir)) =
       [\<lparr>fs_req_aggr = 1, fs_req_id = 2, req_node = h_fs_node\<rparr>,
        \<lparr>fs_req_aggr = 1, fs_req_id = 2, req_node = h_fs_node\<rparr>]"
    by (simp_all add: test_cu_def min_def)
  obtain l ok where g: "fsync_gen_reqs alloc_ok [test_cu 5 1 1, test_cu 6 1 2] v_fs_dir = (l, ok)"
    by (rule prod.exhaust)
  from f r show ?thesis
    unfolding g by (auto simp: m map_eq_Cons_conv)
qed

section \<open>Degenerate input\<close>

text \<open>
  Claim C9.  \<^verbatim>\<open>fsync_gen_reqs\<close> returns false for every list of fewer than two CUs, for
  every pair of CUs with the same coordinates, and for every pair whose hop counter, computed
  in the branch \<^verbatim>\<open>dist > 1\<close> (the only place where it is computed), ends at zero.
\<close>

theorem fsync_gen_reqs_degenerate:
  "(length cus < 2 \<longrightarrow> \<not> snd (fsync_gen_reqs alloc cus default_dir)) \<and>
   (x_pos a = x_pos b \<and> y_pos a = y_pos b \<longrightarrow> \<not> snd (fsync_gen_reqs alloc [a, b] default_dir)) \<and>
   (fsync_x_dist p q + fsync_y_dist p q \<noteq> 1 \<and> fsync_pair_hops p q = 0 \<longrightarrow>
      \<not> snd (fsync_gen_reqs alloc [p, q] default_dir))"
proof (intro conjI impI)
  assume "length cus < 2"
  then show "\<not> snd (fsync_gen_reqs alloc cus default_dir)"
    by (simp add: fsync_gen_reqs_def Let_def)
next
  assume "x_pos a = x_pos b \<and> y_pos a = y_pos b"
  then have "fsync_x_dist a b + fsync_y_dist a b = 0"
    by (simp add: fsync_x_dist_def fsync_y_dist_def)
  then show "\<not> snd (fsync_gen_reqs alloc [a, b] default_dir)"
    by (cases rule: fsync_gen_reqs_two_cases [of a b alloc default_dir]) simp_all
next
  assume h: "fsync_x_dist p q + fsync_y_dist p q \<noteq> 1 \<and> fsync_pair_hops p q = 0"
  then show "\<not> snd (fsync_gen_reqs alloc [p, q] default_dir)"
    by (cases rule: fsync_gen_reqs_two_cases [of p q alloc default_dir]) simp_all
qed

theorem fsync_gen_reqs_degenerate_witness:
  "length [test_cu 7 3 3] < 2 \<and> \<not> snd (fsync_gen_reqs alloc_ok [test_cu 7 3 3] h_fs_dir) \<and>
   x_pos (test_cu 0 1 2) = x_pos (test_cu 1 1 2) \<and> y_pos (test_cu 0 1 2) = y_pos (test_cu 1 1 2) \<and>
   \<not> snd (fsync_gen_reqs alloc_ok [test_cu 0 1 2, test_cu 1 1 2] h_fs_dir) \<and>
   fsync_x_dist (test_cu 0 4 0) (test_cu 1 6 0) + fsync_y_dist (test_cu 0 4 0) (test_cu 1 6 0) \<noteq> 1 \<and>
   fsync_pair_hops (test_cu 0 4 0) (test_cu 1 6 0) = 0 \<and>
   \<not> snd (fsync_gen_reqs alloc_ok [test_cu 0 4 0, test_cu 1 6 0] h_fs_dir)"
proof -
  have d: "fsync_x_dist (test_cu 0 4 0) (test_cu 1 6 0) + fsync_y_dist (test_cu 0 4 0) (test_cu 1 6 0) \<noteq> 1"
    by (simp add: fsync_x_dist_def fsync_y_dist_def abs_diff_def test_cu_def)
  have h: "fsync_pair_hops (test_cu 0 4 0) (test_cu 1 6 0) = 0"
    by (simp add: fsync_pair_hops_eq Let_def test_cu_def fsync_same_subtree_def fsync_update_pos_def
          word_le_nat_alt word_less_nat_alt)
  show ?thesis
    using fsync_gen_reqs_degenerate [of "[test_cu 7 3 3]" alloc_ok h_fs_dir "test_cu 0 1 2"
        "test_cu 1 1 2" "test_cu 0 4 0" "test_cu 1 6 0"] d h
    by (simp add: test_cu_def)
qed

section \<open>CUs at one position, and the size of the aggregate\<close>

text \<open>
  Claim C7.  For every call on three or more CUs that all have the same coordinates,
  \<^verbatim>\<open>fsync_gen_reqs\<close> returns false and every CU ends with aggregate 0, whatever the
  allocator does.
\<close>

theorem fsync_gen_reqs_same_position:
  assumes "3 \<le> length cus"
    and "\<forall>c\<in>set cus. \<forall>c'\<in>set cus. x_pos c = x_pos c' \<and> y_pos c = y_pos c'"
  shows "\<not> snd (fsync_gen_reqs alloc cus default_dir) \<and>
         (\<forall>c\<in>set (fst (fsync_gen_reqs alloc cus default_dir)). fs_req_aggr (fsync_req c) = 0)"
proof -
  from assms(1) have many: "2 < length cus" by simp
  have off: "\<not> snd (fsync_gen_reqs alloc cus default_dir)"
    using many assms(2) by (rule fsync_gen_reqs_many_same_pos)
  have reqs: "map fsync_req (fst (fsync_gen_reqs alloc cus default_dir))
                = replicate (length cus) fsync_default_req"
    using many off by (rule fsync_gen_reqs_many_false)
  have "fs_req_aggr (fsync_req c) = 0" if "c \<in> set (fst (fsync_gen_reqs alloc cus default_dir))" for c
  proof -
    from that have "fsync_req c \<in> set (map fsync_req (fst (fsync_gen_reqs alloc cus default_dir)))"
      by simp
    then have "fsync_req c = fsync_default_req" unfolding reqs by simp
    then show ?thesis by (simp add: fsync_default_req_def)
  qed
  with off show ?thesis by blast
qed

theorem fsync_gen_reqs_same_position_witness:
  "3 \<le> length [test_cu 0 1 3, test_cu 1 1 3, test_cu 2 1 3] \<and>
   \<not> snd (fsync_gen_reqs alloc_ok [test_cu 0 1 3, test_cu 1 1 3, test_cu 2 1 3] h_fs_dir) \<and>
   fs_req_aggr (fsync_req (fst (fsync_gen_reqs alloc_ok [test_cu 0 1 3, test_cu 1 1 3, test_cu 2 1 3] h_fs_dir) ! 0)) = 0 \<and>
   fs_req_aggr (fsync_req (fst (fsync_gen_reqs alloc_ok [test_cu 0 1 3, test_cu 1 1 3, test_cu 2 1 3] h_fs_dir) ! 1)) = 0 \<and>
   fs_req_aggr (fsync_req (fst (fsync_gen_reqs alloc_ok [test_cu 0 1 3, test_cu 1 1 3, test_cu 2 1 3] h_fs_dir) ! 2)) = 0"
proof -
  let ?l = "fst (fsync_gen_reqs alloc_ok [test_cu 0 1 3, test_cu 1 1 3, test_cu 2 1 3] h_fs_dir)"
  have l: "3 \<le> length [test_cu 0 1 3, test_cu 1 1 3, test_cu 2 1 3]" by simp
  have s: "\<forall>c\<in>set [test_cu 0 1 3, test_cu 1 1 3, test_cu 2 1 3].
      \<forall>c'\<in>set [test_cu 0 1 3, test_cu 1 1 3, test_cu 2 1 3].
         x_pos c = x_pos c' \<and> y_pos c = y_pos c'"
    by (simp add: test_cu_def)
  have m: "?l ! 0 \<in> set ?l" "?l ! 1 \<in> set ?l" "?l ! 2 \<in> set ?l"
    by (rule nth_mem, simp only: length_fsync_gen_reqs, simp)+
  from fsync_gen_reqs_same_position [OF l s, of alloc_ok h_fs_dir] l m show ?thesis
    by blast
qed

lemma fsync_bit_count_less_16:
  assumes "a < 16"
  shows "fsync_bit_count a \<le> 4"
proof -
  from assms have "a < 2 ^ 4" by simp
  then have m: "a AND mask 4 = a" by (rule less_mask_eq)
  have low: "n < 4" if "bit a n" for n
  proof -
    from that m have "bit (a AND mask 4) n" by simp
    then show ?thesis by (simp add: bit_and_iff bit_mask_iff)
  qed
  have "set (filter (bit a) [0..<32]) \<subseteq> {0..<4}"
    using low by auto
  then have "card (set (filter (bit a) [0..<32])) \<le> card {0..<4::nat}"
    by (intro card_mono) simp_all
  moreover have "card (set (filter (bit a) [0..<32])) = length (filter (bit a) [0..<32])"
    by (intro distinct_card) simp
  ultimately show ?thesis by (simp add: fsync_bit_count_def)
qed

lemma fsync_gen_reqs_aggr_less_16:
  assumes "c \<in> set (fst (fsync_gen_reqs alloc cus d))"
  shows "fs_req_aggr (fsync_req c) < 16"
proof -
  consider (few) "length cus < 2" | (two) "length cus = 2" | (many) "2 < length cus"
    by linarith
  then show ?thesis
  proof cases
    case few
    with assms have "c \<in> set (fsync_init_reqs cus)"
      by (simp add: fsync_gen_reqs_def Let_def)
    then show ?thesis by (auto simp: fsync_init_reqs_def fsync_init_req_def)
  next
    case two
    then obtain a b where cus: "cus = [a, b]"
      by (metis list2_nth)
    from assms have mem: "fsync_req c \<in> set (map fsync_req (fst (fsync_gen_reqs alloc [a, b] d)))"
      unfolding cus by simp
    show ?thesis
    proof (cases rule: fsync_gen_reqs_two_cases [of a b alloc d])
      case zero
      with mem show ?thesis by (auto simp: fsync_default_req_def)
    next
      case (nbr r)
      with mem show ?thesis by auto
    next
      case (far r)
      from far(3) fsync_pair_hops_range [of a b]
      have "fsync_pair_hops a b = 2 \<or> fsync_pair_hops a b = 3 \<or> fsync_pair_hops a b = 4"
        by (auto simp: word_less_nat_alt)
      then have "fs_req_aggr r < 16" unfolding far(6) by auto
      with mem far(5) show ?thesis by auto
    next
      case (low r)
      with mem show ?thesis by auto
    qed
  next
    case many
    then show ?thesis using assms by (rule fsync_gen_reqs_many_bound)
  qed
qed

text \<open>
  Claim C6.  For every successful call, every CU's final aggregate has at most L set bits,
  where L is the configured tree depth \<^verbatim>\<open>__FSYNC_N_LVL__\<close> = 4.  (The aggregate is below
  \<open>2\<^sup>4\<close>: the engine appends one bit at each of the at most four nodes on a CU's path, and
  the two-CU branch assigns a single bit.)
\<close>

theorem fsync_gen_reqs_aggregate_bits:
  assumes "snd (fsync_gen_reqs alloc cus default_dir)"
  shows "\<forall>c\<in>set (fst (fsync_gen_reqs alloc cus default_dir)).
           fsync_bit_count (fs_req_aggr (fsync_req c)) \<le> unat FSYNC_N_LVL"
proof
  fix c assume "c \<in> set (fst (fsync_gen_reqs alloc cus default_dir))"
  then have "fs_req_aggr (fsync_req c) < 16" by (rule fsync_gen_reqs_aggr_less_16)
  then have "fsync_bit_count (fs_req_aggr (fsync_req c)) \<le> 4" by (rule fsync_bit_count_less_16)
  then show "fsync_bit_count (fs_req_aggr (fsync_req c)) \<le> unat FSYNC_N_LVL"
    by (simp add: FSYNC_N_LVL_def)
qed

theorem fsync_gen_reqs_aggregate_bits_witness:
  "snd (fsync_gen_reqs alloc_ok
          [test_cu 0 0 0, test_cu 5 1 1, test_cu 2 0 2, test_cu 3 0 3,
           test_cu 8 2 0, test_cu 10 2 2, test_cu 11 2 3, test_cu 15 3 3] h_fs_dir) \<and>
   fsync_bit_count (fs_req_aggr (fsync_req (fst (fsync_gen_reqs alloc_ok
          [test_cu 0 0 0, test_cu 5 1 1, test_cu 2 0 2, test_cu 3 0 3,
           test_cu 8 2 0, test_cu 10 2 2, test_cu 11 2 3, test_cu 15 3 3] h_fs_dir) ! 0))) \<le> unat FSYNC_N_LVL \<and>
   fsync_bit_count (fs_req_aggr (fsync_req (fst (fsync_gen_reqs alloc_ok
          [test_cu 0 0 0, test_cu 5 1 1, test_cu 2 0 2, test_cu 3 0 3,
           test_cu 8 2 0, test_cu 10 2 2, test_cu 11 2 3, test_cu 15 3 3] h_fs_dir) ! 5))) \<le> unat FSYNC_N_LVL"
proof -
  let ?l = "fst (fsync_gen_reqs alloc_ok
          [test_cu 0 0 0, test_cu 5 1 1, test_cu 2 0 2, test_cu 3 0 3,
           test_cu 8 2 0, test_cu 10 2 2, test_cu 11 2 3, test_cu 15 3 3] h_fs_dir)"
  have ok: "snd (fsync_gen_reqs alloc_ok
          [test_cu 0 0 0, test_cu 5 1 1, test_cu 2 0 2, test_cu 3 0 3,
           test_cu 8 2 0, test_cu 10 2 2, test_cu 11 2 3, test_cu 15 3 3] h_fs_dir)"
    by code_simp
  have m: "?l ! 0 \<in> set ?l" "?l ! 5 \<in> set ?l"
    by (rule nth_mem, simp only: length_fsync_gen_reqs, simp)+
  from fsync_gen_reqs_aggregate_bits [OF ok] ok m show ?thesis by blast
qed

section \<open>What a failed call leaves behind\<close>

lemma uint_le_1_cases:
  fixes x :: uint
  assumes "x \<le> 1"
  shows "x = 0 \<or> x = 1"
proof -
  from assms have "unat x \<le> 1" by (simp add: word_le_nat_alt)
  then consider "unat x = 0" | "unat x = 1" by linarith
  then show ?thesis
    using word_unat_eq_iff [of x 0] word_unat_eq_iff [of x 1] by cases simp_all
qed

text \<open>Inside the grid the hop counter of a pair at distance above 1 stays above 1.\<close>

lemma fsync_pair_hops_in_grid:
  assumes "fsync_in_grid a" "fsync_in_grid b"
    and "fsync_x_dist a b + fsync_y_dist a b \<noteq> 0" "fsync_x_dist a b + fsync_y_dist a b \<noteq> 1"
  shows "fsync_pair_hops a b > 1"
proof (rule ccontr)
  assume "\<not> fsync_pair_hops a b > 1"
  then have A1: "fsync_same_subtree (x_pos a) (x_pos b) 2"
    and B1: "fsync_same_subtree (y_pos a) (y_pos b) 2"
    and AB2: "fsync_same_subtree (fst (fsync_update_pos (x_pos a) 2))
                 (fst (fsync_update_pos (x_pos b) 2)) 1 \<or>
              fsync_same_subtree (fst (fsync_update_pos (y_pos a) 2))
                 (fst (fsync_update_pos (y_pos b) 2)) 1"
    unfolding fsync_pair_hops_low by simp_all
  from assms(1,2) have g: "x_pos a < 4" "x_pos b < 4" "y_pos a < 4" "y_pos b < 4"
    by (simp_all add: fsync_in_grid_def FSYNC_N_CU_X_def FSYNC_N_CU_Y_def)
  note X = same_halves_in_grid [OF g(1,2) A1]
  note Y = same_halves_in_grid [OF g(3,4) B1]
  from AB2 show False
  proof
    assume "fsync_same_subtree (fst (fsync_update_pos (x_pos a) 2))
                 (fst (fsync_update_pos (x_pos b) 2)) 1"
    then have "x_pos a = x_pos b" by (rule X(2))
    then have "fsync_x_dist a b = 0" by (simp add: fsync_x_dist_def)
    moreover from uint_le_1_cases [OF Y(1)] have "fsync_y_dist a b = 0 \<or> fsync_y_dist a b = 1"
      by (simp add: fsync_y_dist_def)
    ultimately show False using assms(3,4) by auto
  next
    assume "fsync_same_subtree (fst (fsync_update_pos (y_pos a) 2))
                 (fst (fsync_update_pos (y_pos b) 2)) 1"
    then have "y_pos a = y_pos b" by (rule Y(2))
    then have "fsync_y_dist a b = 0" by (simp add: fsync_y_dist_def)
    moreover from uint_le_1_cases [OF X(1)] have "fsync_x_dist a b = 0 \<or> fsync_x_dist a b = 1"
      by (simp add: fsync_x_dist_def)
    ultimately show False using assms(3,4) by auto
  qed
qed

text \<open>
  The requests after a call that returns false, for every input and allocator: aggregate
  and id are 0, and the node is None unless the call was on two CUs at distance above 1
  whose hop counter ended at 1 or below (line 234); there the node tag written at lines
  176-185 stays, as no statement between line 185 and the return resets it.
\<close>

lemma fsync_gen_reqs_failure_fields:
  assumes off: "\<not> snd (fsync_gen_reqs alloc cus default_dir)"
    and c: "c \<in> set (fst (fsync_gen_reqs alloc cus default_dir))"
  shows "fs_req_aggr (fsync_req c) = 0 \<and> fs_req_id (fsync_req c) = 0 \<and>
         (req_node (fsync_req c) = null_fs_node \<or>
          (\<exists>a b. cus = [a, b] \<and> fsync_x_dist a b + fsync_y_dist a b \<noteq> 0 \<and>
                 fsync_x_dist a b + fsync_y_dist a b \<noteq> 1 \<and> \<not> fsync_pair_hops a b > 1 \<and>
                 req_node (fsync_req c) = fsync_pair_tag (fsync_x_dist a b) (fsync_y_dist a b)))"
proof -
  from c have mem: "fsync_req c \<in> set (map fsync_req (fst (fsync_gen_reqs alloc cus default_dir)))"
    by simp
  consider (few) "length cus < 2" | (two) "length cus = 2" | (many) "2 < length cus"
    by linarith
  then show ?thesis
  proof cases
    case few
    with c have "c \<in> set (fsync_init_reqs cus)"
      by (simp add: fsync_gen_reqs_def Let_def)
    then show ?thesis by (auto simp: fsync_init_reqs_def fsync_init_req_def)
  next
    case many
    from mem have "fsync_req c = fsync_default_req"
      unfolding fsync_gen_reqs_many_false [OF many off] by simp
    then show ?thesis by (simp add: fsync_default_req_def)
  next
    case two
    then obtain a b where cus: "cus = [a, b]"
      by (metis list2_nth)
    note mem' = mem [unfolded cus]
    note off' = off [unfolded cus]
    show ?thesis
    proof (cases rule: fsync_gen_reqs_two_cases [of a b alloc default_dir])
      case zero
      with mem' show ?thesis by (auto simp: fsync_default_req_def)
    next
      case (nbr r)
      with off' show ?thesis by simp
    next
      case (far r)
      with off' show ?thesis by simp
    next
      case (low r)
      from mem' low(5) have "fsync_req c = r" by simp
      with low(6) have f: "fs_req_aggr (fsync_req c) = 0" "fs_req_id (fsync_req c) = 0"
        "req_node (fsync_req c) = fsync_pair_tag (fsync_x_dist a b) (fsync_y_dist a b)"
        by simp_all
      from cus low(1,2,3) f(3)
      have "\<exists>a b. cus = [a, b] \<and> fsync_x_dist a b + fsync_y_dist a b \<noteq> 0 \<and>
                 fsync_x_dist a b + fsync_y_dist a b \<noteq> 1 \<and> \<not> fsync_pair_hops a b > 1 \<and>
                 req_node (fsync_req c) = fsync_pair_tag (fsync_x_dist a b) (fsync_y_dist a b)"
        by blast
      with f(1,2) show ?thesis by blast
    qed
  qed
qed

text \<open>
  The exit of line 234 needs a coordinate outside the grid, which is not an input of the
  generator (positions are bounded by the grid width and height).  For the record, the CUs
  at (x = 0, y = 4) and (x = 0, y = 6) reach it: the call returns false and both nodes keep
  the tag Vertical.
\<close>

lemma fsync_gen_reqs_off_grid_pair:
  "fsync_gen_reqs alloc_ok [test_cu 0 4 0, test_cu 1 6 0] h_fs_dir =
     ([\<lparr>cu_id = 0, y_pos = 4, x_pos = 0,
        fsync_req = \<lparr>fs_req_aggr = 0, fs_req_id = 0, req_node = v_fs_node\<rparr>\<rparr>,
       \<lparr>cu_id = 1, y_pos = 6, x_pos = 0,
        fsync_req = \<lparr>fs_req_aggr = 0, fs_req_id = 0, req_node = v_fs_node\<rparr>\<rparr>], False) \<and>
   \<not> fsync_in_grid (test_cu 0 4 0)"
  by code_simp

text \<open>
  Claim C1.  For every list of CUs placed on the grid (x below \<^verbatim>\<open>__FSYNC_N_CU_X__\<close>, y below
  \<^verbatim>\<open>__FSYNC_N_CU_Y__\<close>), every direction flag and every allocator behaviour (so in
  particular when no allocation fails): whenever \<^verbatim>\<open>fsync_gen_reqs\<close> returns false, every CU
  of the caller's array ends the call with aggregate 0, id 0 and node None.
\<close>

theorem fsync_gen_reqs_failure_defaults:
  assumes grid: "\<forall>u\<in>set cus. fsync_in_grid u"
    and off: "\<not> snd (fsync_gen_reqs alloc cus default_dir)"
  shows "\<forall>c\<in>set (fst (fsync_gen_reqs alloc cus default_dir)).
           fs_req_aggr (fsync_req c) = 0 \<and> fs_req_id (fsync_req c) = 0 \<and>
           req_node (fsync_req c) = null_fs_node"
proof
  fix c assume c: "c \<in> set (fst (fsync_gen_reqs alloc cus default_dir))"
  note f = fsync_gen_reqs_failure_fields [OF off c]
  have "\<not> (\<exists>a b. cus = [a, b] \<and> fsync_x_dist a b + fsync_y_dist a b \<noteq> 0 \<and>
                 fsync_x_dist a b + fsync_y_dist a b \<noteq> 1 \<and> \<not> fsync_pair_hops a b > 1 \<and>
                 req_node (fsync_req c) = fsync_pair_tag (fsync_x_dist a b) (fsync_y_dist a b))"
  proof
    assume "\<exists>a b. cus = [a, b] \<and> fsync_x_dist a b + fsync_y_dist a b \<noteq> 0 \<and>
                 fsync_x_dist a b + fsync_y_dist a b \<noteq> 1 \<and> \<not> fsync_pair_hops a b > 1 \<and>
                 req_node (fsync_req c) = fsync_pair_tag (fsync_x_dist a b) (fsync_y_dist a b)"
    then obtain a b where cus: "cus = [a, b]"
      and d: "fsync_x_dist a b + fsync_y_dist a b \<noteq> 0" "fsync_x_dist a b + fsync_y_dist a b \<noteq> 1"
      and h: "\<not> fsync_pair_hops a b > 1"
      by blast
    from grid cus have "fsync_in_grid a" "fsync_in_grid b" by simp_all
    from fsync_pair_hops_in_grid [OF this d] h show False by contradiction
  qed
  with f show "fs_req_aggr (fsync_req c) = 0 \<and> fs_req_id (fsync_req c) = 0 \<and>
           req_node (fsync_req c) = null_fs_node"
    by blast
qed

theorem fsync_gen_reqs_failure_defaults_witness:
  "fsync_in_grid (test_cu 0 3 1) \<and> fsync_in_grid (test_cu 1 3 1) \<and>
   \<not> snd (fsync_gen_reqs alloc_ok [test_cu 0 3 1, test_cu 1 3 1] v_fs_dir) \<and>
   fs_req_aggr (fsync_req (fst (fsync_gen_reqs alloc_ok [test_cu 0 3 1, test_cu 1 3 1] v_fs_dir) ! 0)) = 0 \<and>
   fs_req_id (fsync_req (fst (fsync_gen_reqs alloc_ok [test_cu 0 3 1, test_cu 1 3 1] v_fs_dir) ! 0)) = 0 \<and>
   req_node (fsync_req (fst (fsync_gen_reqs alloc_ok [test_cu 0 3 1, test_cu 1 3 1] v_fs_dir) ! 0)) = null_fs_node \<and>
   fs_req_aggr (fsync_req (fst (fsync_gen_reqs alloc_ok [test_cu 0 3 1, test_cu 1 3 1] v_fs_dir) ! 1)) = 0 \<and>
   fs_req_id (fsync_req (fst (fsync_gen_reqs alloc_ok [test_cu 0 3 1, test_cu 1 3 1] v_fs_dir) ! 1)) = 0 \<and>
   req_node (fsync_req (fst (fsync_gen_reqs alloc_ok [test_cu 0 3 1, test_cu 1 3 1] v_fs_dir) ! 1)) = null_fs_node"
proof -
  let ?l = "fst (fsync_gen_reqs alloc_ok [test_cu 0 3 1, test_cu 1 3 1] v_fs_dir)"
  have off: "\<not> snd (fsync_gen_reqs alloc_ok [test_cu 0 3 1, test_cu 1 3 1] v_fs_dir)"
    by code_simp
  have g: "fsync_in_grid (test_cu 0 3 1)" "fsync_in_grid (test_cu 1 3 1)"
    by (simp_all add: fsync_in_grid_def test_cu_def FSYNC_N_CU_X_def FSYNC_N_CU_Y_def)
  then have grid: "\<forall>u\<in>set [test_cu 0 3 1, test_cu 1 3 1]. fsync_in_grid u" by simp
  have m: "?l ! 0 \<in> set ?l" "?l ! 1 \<in> set ?l"
    by (rule nth_mem, simp only: length_fsync_gen_reqs, simp)+
  from fsync_gen_reqs_failure_defaults [OF grid off] off g m show ?thesis by blast
qed

section \<open>Two CUs further apart: hop count, aggregate and axis\<close>

text \<open>The loop against the axes walking alone: the loop runs one round more than the
  shorter of the two walks, and an axis steps in every round it would step in alone.\<close>

lemma fsync_pair_hops_spec:
  "fsync_pair_hops a b =
     FSYNC_N_LVL
       - of_nat (min (spec_axis_steps (x_pos a) (x_pos b) (FSYNC_N_CU_X div 2))
                     (Suc (min (spec_axis_steps (x_pos a) (x_pos b) (FSYNC_N_CU_X div 2))
                               (spec_axis_steps (y_pos a) (y_pos b) (FSYNC_N_CU_Y div 2)))))
       - of_nat (min (spec_axis_steps (y_pos a) (y_pos b) (FSYNC_N_CU_Y div 2))
                     (Suc (min (spec_axis_steps (x_pos a) (x_pos b) (FSYNC_N_CU_X div 2))
                               (spec_axis_steps (y_pos a) (y_pos b) (FSYNC_N_CU_Y div 2)))))"
proof -
  have th: "FSYNC_N_CU_X div 2 = 2" "FSYNC_N_CU_Y div 2 = 2" "FSYNC_N_LVL = 4"
    by (simp_all add: FSYNC_N_CU_X_def FSYNC_N_CU_Y_def FSYNC_N_LVL_def)
  show ?thesis
    unfolding th fsync_pair_hops_eq spec_axis_steps_2 Let_def
    by (cases "fsync_same_subtree (x_pos a) (x_pos b) 2";
        cases "fsync_same_subtree (y_pos a) (y_pos b) 2";
        cases "fsync_same_subtree (fst (fsync_update_pos (x_pos a) 2))
                 (fst (fsync_update_pos (x_pos b) 2)) 1";
        cases "fsync_same_subtree (fst (fsync_update_pos (y_pos a) 2))
                 (fst (fsync_update_pos (y_pos b) 2)) 1") simp_all
qed

text \<open>
  Claim C2, as stated, fails: the axes do not walk independently.  For the CUs at
  (x = 0, y = 0) and (x = 2, y = 0) the x axis diverges at once and the y axis, alone, would
  step twice (hop count 2, aggregate \<open>1 << 1 = 2\<close>); the loop stops after its first round,
  with hop count 3, and the aggregate is 4.
\<close>

theorem fsync_gen_reqs_far_pair_counterexample:
  "fsync_x_dist (test_cu 0 0 0) (test_cu 2 0 2) + fsync_y_dist (test_cu 0 0 0) (test_cu 2 0 2) = 2 \<and>
   spec_pair_hops (test_cu 0 0 0) (test_cu 2 0 2) = 2 \<and>
   push_bit (unat (spec_pair_hops (test_cu 0 0 0) (test_cu 2 0 2) - 1)) (1 :: uint) = 2 \<and>
   fsync_pair_hops (test_cu 0 0 0) (test_cu 2 0 2) = 3 \<and>
   fsync_gen_reqs alloc_ok [test_cu 0 0 0, test_cu 2 0 2] h_fs_dir =
     ([\<lparr>cu_id = 0, y_pos = 0, x_pos = 0,
        fsync_req = \<lparr>fs_req_aggr = 4, fs_req_id = 0, req_node = h_fs_node\<rparr>\<rparr>,
       \<lparr>cu_id = 2, y_pos = 0, x_pos = 2,
        fsync_req = \<lparr>fs_req_aggr = 4, fs_req_id = 0, req_node = h_fs_node\<rparr>\<rparr>], True)"
  by code_simp

text \<open>
  Claim C2, amended.  For every call on exactly two CUs with \<open>dx + dy\<close> neither 0 nor 1:
  the hop counter starts at L = 4 and one loop serves both axes; in each round the x axis,
  then the y axis, steps (halves its threshold, renormalises its coordinates, decrements the
  counter) if its two coordinates lie in the same half and its threshold is positive; the
  loop ends after the first round in which either axis does not step.  So with \<open>kx\<close>, \<open>ky\<close>
  the numbers of steps the axes would take alone, the loop runs \<open>min kx ky + 1\<close> rounds and
  the counter ends at \<open>4 - min kx rounds - min ky rounds\<close>.  The call fails iff the counter
  is \<open>\<le> 1\<close>; otherwise both CUs get aggregate \<open>1 << (hops - 1)\<close>, and id 0 and node Horizontal
  if the axis is horizontal, id 1 and node Vertical otherwise, the axis being that of the
  larger distance, or \<^verbatim>\<open>default_dir\<close> when the distances are equal.
\<close>

theorem fsync_gen_reqs_far_pair:
  assumes "fsync_x_dist a b + fsync_y_dist a b \<noteq> 0"
    and "fsync_x_dist a b + fsync_y_dist a b \<noteq> 1"
  shows "fsync_pair_hops a b =
           FSYNC_N_LVL
             - of_nat (min (spec_axis_steps (x_pos a) (x_pos b) (FSYNC_N_CU_X div 2))
                        (Suc (min (spec_axis_steps (x_pos a) (x_pos b) (FSYNC_N_CU_X div 2))
                                  (spec_axis_steps (y_pos a) (y_pos b) (FSYNC_N_CU_Y div 2)))))
             - of_nat (min (spec_axis_steps (y_pos a) (y_pos b) (FSYNC_N_CU_Y div 2))
                        (Suc (min (spec_axis_steps (x_pos a) (x_pos b) (FSYNC_N_CU_X div 2))
                                  (spec_axis_steps (y_pos a) (y_pos b) (FSYNC_N_CU_Y div 2))))) \<and>
         snd (fsync_gen_reqs alloc [a, b] default_dir) = (fsync_pair_hops a b > 1) \<and>
         (fsync_pair_hops a b > 1 \<longrightarrow>
            map fsync_req (fst (fsync_gen_reqs alloc [a, b] default_dir)) =
              replicate 2
                \<lparr>fs_req_aggr = push_bit (unat (fsync_pair_hops a b - 1)) 1,
                 fs_req_id = (if fsync_pair_dir (fsync_x_dist a b) (fsync_y_dist a b) default_dir
                                   = h_fs_dir then 0 else 1),
                 req_node = (if fsync_pair_dir (fsync_x_dist a b) (fsync_y_dist a b) default_dir
                                   = h_fs_dir then h_fs_node else v_fs_node)\<rparr>)"
proof (intro conjI)
  show "fsync_pair_hops a b =
           FSYNC_N_LVL
             - of_nat (min (spec_axis_steps (x_pos a) (x_pos b) (FSYNC_N_CU_X div 2))
                        (Suc (min (spec_axis_steps (x_pos a) (x_pos b) (FSYNC_N_CU_X div 2))
                                  (spec_axis_steps (y_pos a) (y_pos b) (FSYNC_N_CU_Y div 2)))))
             - of_nat (min (spec_axis_steps (y_pos a) (y_pos b) (FSYNC_N_CU_Y div 2))
                        (Suc (min (spec_axis_steps (x_pos a) (x_pos b) (FSYNC_N_CU_X div 2))
                                  (spec_axis_steps (y_pos a) (y_pos b) (FSYNC_N_CU_Y div 2)))))"
    by (rule fsync_pair_hops_spec)
  show "snd (fsync_gen_reqs alloc [a, b] default_dir) = (fsync_pair_hops a b > 1)"
    using assms by (cases rule: fsync_gen_reqs_two_cases [of a b alloc default_dir]) simp_all
  show "fsync_pair_hops a b > 1 \<longrightarrow>
            map fsync_req (fst (fsync_gen_reqs alloc [a, b] default_dir)) =
              replicate 2
                \<lparr>fs_req_aggr = push_bit (unat (fsync_pair_hops a b - 1)) 1,
                 fs_req_id = (if fsync_pair_dir (fsync_x_dist a b) (fsync_y_dist a b) default_dir
                                   = h_fs_dir then 0 else 1),
                 req_node = (if fsync_pair_dir (fsync_x_dist a b) (fsync_y_dist a b) default_dir
                                   = h_fs_dir then h_fs_node else v_fs_node)\<rparr>"
    using assms
    by (cases rule: fsync_gen_reqs_two_cases [of a b alloc default_dir])
       (simp_all add: numeral_2_eq_2)
qed

theorem fsync_gen_reqs_far_pair_witness:
  "fsync_x_dist (test_cu 0 0 0) (test_cu 10 2 2) + fsync_y_dist (test_cu 0 0 0) (test_cu 10 2 2) \<noteq> 0 \<and>
   fsync_x_dist (test_cu 0 0 0) (test_cu 10 2 2) + fsync_y_dist (test_cu 0 0 0) (test_cu 10 2 2) \<noteq> 1 \<and>
   fsync_pair_hops (test_cu 0 0 0) (test_cu 10 2 2) = 4 \<and>
   snd (fsync_gen_reqs alloc_ok [test_cu 0 0 0, test_cu 10 2 2] v_fs_dir) \<and>
   map fsync_req (fst (fsync_gen_reqs alloc_ok [test_cu 0 0 0, test_cu 10 2 2] v_fs_dir)) =
     [\<lparr>fs_req_aggr = 8, fs_req_id = 1, req_node = v_fs_node\<rparr>,
      \<lparr>fs_req_aggr = 8, fs_req_id = 1, req_node = v_fs_node\<rparr>]"
proof -
  have d: "fsync_x_dist (test_cu 0 0 0) (test_cu 10 2 2) + fsync_y_dist (test_cu 0 0 0) (test_cu 10 2 2) \<noteq> 0"
          "fsync_x_dist (test_cu 0 0 0) (test_cu 10 2 2) + fsync_y_dist (test_cu 0 0 0) (test_cu 10 2 2) \<noteq> 1"
    by (simp_all add: fsync_x_dist_def fsync_y_dist_def abs_diff_def test_cu_def)
  have s: "spec_axis_steps (x_pos (test_cu 0 0 0)) (x_pos (test_cu 10 2 2)) (FSYNC_N_CU_X div 2) = 0"
          "spec_axis_steps (y_pos (test_cu 0 0 0)) (y_pos (test_cu 10 2 2)) (FSYNC_N_CU_Y div 2) = 0"
    by code_simp+
  have dir: "fsync_pair_dir (fsync_x_dist (test_cu 0 0 0) (test_cu 10 2 2))
               (fsync_y_dist (test_cu 0 0 0) (test_cu 10 2 2)) v_fs_dir = v_fs_dir"
    by (simp add: fsync_pair_dir_def fsync_x_dist_def fsync_y_dist_def abs_diff_def test_cu_def)
  from fsync_gen_reqs_far_pair [OF d, of alloc_ok v_fs_dir]
  have h: "fsync_pair_hops (test_cu 0 0 0) (test_cu 10 2 2) = 4"
    and r: "snd (fsync_gen_reqs alloc_ok [test_cu 0 0 0, test_cu 10 2 2] v_fs_dir)
              = (fsync_pair_hops (test_cu 0 0 0) (test_cu 10 2 2) > 1)"
           "fsync_pair_hops (test_cu 0 0 0) (test_cu 10 2 2) > 1 \<longrightarrow>
            map fsync_req (fst (fsync_gen_reqs alloc_ok [test_cu 0 0 0, test_cu 10 2 2] v_fs_dir)) =
              replicate 2
                \<lparr>fs_req_aggr = push_bit (unat (fsync_pair_hops (test_cu 0 0 0) (test_cu 10 2 2) - 1)) 1,
                 fs_req_id = 1, req_node = v_fs_node\<rparr>"
    unfolding s dir by (simp_all add: FSYNC_N_LVL_def)
  have lt: "(1 :: uint) < 4" by (simp add: word_less_nat_alt)
  have pb: "push_bit (unat ((4 :: uint) - 1)) (1 :: uint) = 8" by code_simp
  have two: "replicate 2 x = [x, x]" for x :: fsync_req by (simp add: numeral_2_eq_2)
  from r(1) [unfolded h] lt
  have ok: "snd (fsync_gen_reqs alloc_ok [test_cu 0 0 0, test_cu 10 2 2] v_fs_dir)" by blast
  from r(2) [unfolded h pb two] lt
  have "map fsync_req (fst (fsync_gen_reqs alloc_ok [test_cu 0 0 0, test_cu 10 2 2] v_fs_dir)) =
     [\<lparr>fs_req_aggr = 8, fs_req_id = 1, req_node = v_fs_node\<rparr>,
      \<lparr>fs_req_aggr = 8, fs_req_id = 1, req_node = v_fs_node\<rparr>]" by blast
  with d h ok show ?thesis by blast
qed

section \<open>Ties in the two-CU branch\<close>

text \<open>
  Claim C8, as stated, fails: ties do occur in the branch \<open>dx + dy > 1\<close>.  The CUs at
  (x = 0, y = 0) and (x = 1, y = 1) have \<open>dx = dy = 1\<close>; the call succeeds with hop count 2,
  and id and node follow \<^verbatim>\<open>default_dir\<close>.
\<close>

theorem fsync_gen_reqs_far_axis_counterexample:
  "fsync_x_dist (test_cu 0 0 0) (test_cu 5 1 1) = fsync_y_dist (test_cu 0 0 0) (test_cu 5 1 1) \<and>
   fsync_x_dist (test_cu 0 0 0) (test_cu 5 1 1) + fsync_y_dist (test_cu 0 0 0) (test_cu 5 1 1) = 2 \<and>
   fsync_gen_reqs alloc_ok [test_cu 0 0 0, test_cu 5 1 1] h_fs_dir =
     ([\<lparr>cu_id = 0, y_pos = 0, x_pos = 0,
        fsync_req = \<lparr>fs_req_aggr = 2, fs_req_id = 0, req_node = h_fs_node\<rparr>\<rparr>,
       \<lparr>cu_id = 5, y_pos = 1, x_pos = 1,
        fsync_req = \<lparr>fs_req_aggr = 2, fs_req_id = 0, req_node = h_fs_node\<rparr>\<rparr>], True) \<and>
   fsync_gen_reqs alloc_ok [test_cu 0 0 0, test_cu 5 1 1] v_fs_dir =
     ([\<lparr>cu_id = 0, y_pos = 0, x_pos = 0,
        fsync_req = \<lparr>fs_req_aggr = 2, fs_req_id = 1, req_node = v_fs_node\<rparr>\<rparr>,
       \<lparr>cu_id = 5, y_pos = 1, x_pos = 1,
        fsync_req = \<lparr>fs_req_aggr = 2, fs_req_id = 1, req_node = v_fs_node\<rparr>\<rparr>], True)"
  by code_simp

text \<open>
  Claim C8, amended.  In the two-CU branch handling \<open>dx + dy > 1\<close>, for every input whose
  id and node are assigned there (the call succeeds): when \<open>dx \<noteq> dy\<close> they are those of the
  axis of the larger distance (0/Horizontal for \<open>dx > dy\<close>, 1/Vertical for \<open>dy > dx\<close>); when
  \<open>dx = dy\<close>, which does occur, they are those of \<^verbatim>\<open>default_dir\<close>.
\<close>

theorem fsync_gen_reqs_far_axis:
  assumes "fsync_x_dist a b + fsync_y_dist a b \<noteq> 0"
    and "fsync_x_dist a b + fsync_y_dist a b \<noteq> 1"
    and "snd (fsync_gen_reqs alloc [a, b] default_dir)"
  shows "\<forall>c\<in>set (fst (fsync_gen_reqs alloc [a, b] default_dir)).
           (fsync_y_dist a b < fsync_x_dist a b \<longrightarrow>
              fs_req_id (fsync_req c) = 0 \<and> req_node (fsync_req c) = h_fs_node) \<and>
           (fsync_x_dist a b < fsync_y_dist a b \<longrightarrow>
              fs_req_id (fsync_req c) = 1 \<and> req_node (fsync_req c) = v_fs_node) \<and>
           (fsync_x_dist a b = fsync_y_dist a b \<longrightarrow>
              fs_req_id (fsync_req c) = (if default_dir = h_fs_dir then 0 else 1) \<and>
              req_node (fsync_req c) = (if default_dir = h_fs_dir then h_fs_node else v_fs_node))"
proof
  fix c assume "c \<in> set (fst (fsync_gen_reqs alloc [a, b] default_dir))"
  then have mem: "fsync_req c \<in> set (map fsync_req (fst (fsync_gen_reqs alloc [a, b] default_dir)))"
    by simp
  show "(fsync_y_dist a b < fsync_x_dist a b \<longrightarrow>
              fs_req_id (fsync_req c) = 0 \<and> req_node (fsync_req c) = h_fs_node) \<and>
           (fsync_x_dist a b < fsync_y_dist a b \<longrightarrow>
              fs_req_id (fsync_req c) = 1 \<and> req_node (fsync_req c) = v_fs_node) \<and>
           (fsync_x_dist a b = fsync_y_dist a b \<longrightarrow>
              fs_req_id (fsync_req c) = (if default_dir = h_fs_dir then 0 else 1) \<and>
              req_node (fsync_req c) = (if default_dir = h_fs_dir then h_fs_node else v_fs_node))"
  proof (cases rule: fsync_gen_reqs_two_cases [of a b alloc default_dir])
    case zero
    with assms show ?thesis by simp
  next
    case (nbr r)
    with assms show ?thesis by simp
  next
    case (low r)
    with assms show ?thesis by simp
  next
    case (far r)
    from mem far(5) have "fsync_req c = r" by simp
    then show ?thesis
      unfolding far(6) by (auto simp: fsync_pair_dir_def)
  qed
qed

theorem fsync_gen_reqs_far_axis_witness:
  "fsync_x_dist (test_cu 0 0 0) (test_cu 5 1 1) + fsync_y_dist (test_cu 0 0 0) (test_cu 5 1 1) \<noteq> 0 \<and>
   fsync_x_dist (test_cu 0 0 0) (test_cu 5 1 1) + fsync_y_dist (test_cu 0 0 0) (test_cu 5 1 1) \<noteq> 1 \<and>
   snd (fsync_gen_reqs alloc_ok [test_cu 0 0 0, test_cu 5 1 1] v_fs_dir) \<and>
   fsync_x_dist (test_cu 0 0 0) (test_cu 5 1 1) = fsync_y_dist (test_cu 0 0 0) (test_cu 5 1 1) \<and>
   fs_req_id (fsync_req (fst (fsync_gen_reqs alloc_ok [test_cu 0 0 0, test_cu 5 1 1] v_fs_dir) ! 0)) = 1 \<and>
   req_node (fsync_req (fst (fsync_gen_reqs alloc_ok [test_cu 0 0 0, test_cu 5 1 1] v_fs_dir) ! 0)) = v_fs_node \<and>
   fs_req_id (fsync_req (fst (fsync_gen_reqs alloc_ok [test_cu 0 0 0, test_cu 5 1 1] v_fs_dir) ! 1)) = 1 \<and>
   req_node (fsync_req (fst (fsync_gen_reqs alloc_ok [test_cu 0 0 0, test_cu 5 1 1] v_fs_dir) ! 1)) = v_fs_node"
proof -
  let ?l = "fst (fsync_gen_reqs alloc_ok [test_cu 0 0 0, test_cu 5 1 1] v_fs_dir)"
  have d: "fsync_x_dist (test_cu 0 0 0) (test_cu 5 1 1) + fsync_y_dist (test_cu 0 0 0) (test_cu 5 1 1) \<noteq> 0"
          "fsync_x_dist (test_cu 0 0 0) (test_cu 5 1 1) + fsync_y_dist (test_cu 0 0 0) (test_cu 5 1 1) \<noteq> 1"
    by (simp_all add: fsync_x_dist_def fsync_y_dist_def abs_diff_def test_cu_def)
  have ok: "snd (fsync_gen_reqs alloc_ok [test_cu 0 0 0, test_cu 5 1 1] v_fs_dir)"
    by code_simp
  have tie: "fsync_x_dist (test_cu 0 0 0) (test_cu 5 1 1) = fsync_y_dist (test_cu 0 0 0) (test_cu 5 1 1)"
    by (simp add: fsync_x_dist_def fsync_y_dist_def test_cu_def)
  have m: "?l ! 0 \<in> set ?l" "?l ! 1 \<in> set ?l"
    by (rule nth_mem, simp only: length_fsync_gen_reqs, simp)+
  from fsync_gen_reqs_far_axis [OF d ok] tie
  have "\<forall>c\<in>set ?l. fs_req_id (fsync_req c) = 1 \<and> req_node (fsync_req c) = v_fs_node"
    by simp
  with d ok tie m show ?thesis by blast
qed

section \<open>Recording a contribution\<close>







section \<open>First write wins\<close>

text \<open>
  Claim C4, as stated, fails on the two-CU branch: for the CUs at (x = 0, y = 0) and
  (x = 1, y = 1), with \<^verbatim>\<open>default_dir\<close> horizontal, line 181 sets both nodes to Both and line
  229 then overwrites them with Horizontal.
\<close>

theorem fsync_node_first_write_counterexample:
  "fsync_pair_axis
     (fsync_x_dist (fsync_init_req (test_cu 0 0 0)) (fsync_init_req (test_cu 5 1 1)))
     (fsync_y_dist (fsync_init_req (test_cu 0 0 0)) (fsync_init_req (test_cu 5 1 1)))
     h_fs_dir (fsync_init_req (test_cu 0 0 0)) (fsync_init_req (test_cu 5 1 1)) =
     (h_fs_dir,
      \<lparr>cu_id = 0, y_pos = 0, x_pos = 0,
       fsync_req = \<lparr>fs_req_aggr = 0, fs_req_id = 0, req_node = hv_fs_node\<rparr>\<rparr>,
      \<lparr>cu_id = 5, y_pos = 1, x_pos = 1,
       fsync_req = \<lparr>fs_req_aggr = 0, fs_req_id = 0, req_node = hv_fs_node\<rparr>\<rparr>) \<and>
   fsync_pair_far h_fs_dir
      \<lparr>cu_id = 0, y_pos = 0, x_pos = 0,
       fsync_req = \<lparr>fs_req_aggr = 0, fs_req_id = 0, req_node = hv_fs_node\<rparr>\<rparr>
      \<lparr>cu_id = 5, y_pos = 1, x_pos = 1,
       fsync_req = \<lparr>fs_req_aggr = 0, fs_req_id = 0, req_node = hv_fs_node\<rparr>\<rparr> =
     ((\<lparr>cu_id = 0, y_pos = 0, x_pos = 0,
        fsync_req = \<lparr>fs_req_aggr = 2, fs_req_id = 0, req_node = h_fs_node\<rparr>\<rparr>,
       \<lparr>cu_id = 5, y_pos = 1, x_pos = 1,
        fsync_req = \<lparr>fs_req_aggr = 2, fs_req_id = 0, req_node = h_fs_node\<rparr>\<rparr>), True) \<and>
   fsync_gen_reqs alloc_ok [test_cu 0 0 0, test_cu 5 1 1] h_fs_dir =
     ([\<lparr>cu_id = 0, y_pos = 0, x_pos = 0,
        fsync_req = \<lparr>fs_req_aggr = 2, fs_req_id = 0, req_node = h_fs_node\<rparr>\<rparr>,
       \<lparr>cu_id = 5, y_pos = 1, x_pos = 1,
        fsync_req = \<lparr>fs_req_aggr = 2, fs_req_id = 0, req_node = h_fs_node\<rparr>\<rparr>], True)"
  by code_simp

text \<open>
  Claim C4, amended.  In the Partition Engine (three or more CUs), during one call, a CU's
  node goes only from None to a concrete value and is never changed once it is not None, and
  neither is its id: this holds for every recording step and for every call of the engine,
  from any store.  In the two-CU branch the node is written once at the axis choice (lines
  176-185) and a second time when \<open>dx + dy > 1\<close> and the hop count is above 1 (lines 229,
  232); when \<open>dx \<noteq> dy\<close> the final node is the one written first, so the second write
  changes the node only when \<open>dx = dy\<close> (Both becomes Horizontal or Vertical).
\<close>

theorem fsync_node_first_write_wins:
  "list_all2 fsync_req_kept st (fsync_update_cus_req st cus dir node act) \<and>
   list_all2 fsync_req_kept st (fst (fsync_partition_subtree alloc k st cus dir th node)) \<and>
   (fsync_x_dist a b + fsync_y_dist a b \<noteq> 0 \<and> fsync_x_dist a b \<noteq> fsync_y_dist a b \<longrightarrow>
      map (\<lambda>c. req_node (fsync_req c)) (fst (fsync_gen_reqs alloc [a, b] default_dir)) =
        (case fsync_pair_axis (fsync_x_dist a b) (fsync_y_dist a b) default_dir
                (fsync_init_req a) (fsync_init_req b)
         of (d, t0, t1) \<Rightarrow> [req_node (fsync_req t0), req_node (fsync_req t1)]))"
proof (intro conjI impI)
  show "list_all2 fsync_req_kept st (fsync_update_cus_req st cus dir node act)"
    by (rule fsync_update_cus_req_kept)
  show "list_all2 fsync_req_kept st (fst (fsync_partition_subtree alloc k st cus dir th node))"
    by (rule fsync_partition_subtree_kept)
next
  assume h: "fsync_x_dist a b + fsync_y_dist a b \<noteq> 0 \<and> fsync_x_dist a b \<noteq> fsync_y_dist a b"
  have m: "map (\<lambda>c. req_node (fsync_req c)) l = map req_node (map fsync_req l)" for l :: "fsync_cu list"
    by simp
  have tag: "(case fsync_pair_axis (fsync_x_dist a b) (fsync_y_dist a b) default_dir
                (fsync_init_req a) (fsync_init_req b)
         of (d, t0, t1) \<Rightarrow> [req_node (fsync_req t0), req_node (fsync_req t1)])
        = [fsync_pair_tag (fsync_x_dist a b) (fsync_y_dist a b),
           fsync_pair_tag (fsync_x_dist a b) (fsync_y_dist a b)]"
    by (simp add: fsync_pair_axis_eq)
  have "map req_node (map fsync_req (fst (fsync_gen_reqs alloc [a, b] default_dir))) =
          [fsync_pair_tag (fsync_x_dist a b) (fsync_y_dist a b),
           fsync_pair_tag (fsync_x_dist a b) (fsync_y_dist a b)]"
  proof (cases rule: fsync_gen_reqs_two_cases [of a b alloc default_dir])
    case zero
    with h show ?thesis by simp
  next
    case (nbr r)
    then show ?thesis by simp
  next
    case (low r)
    then show ?thesis by simp
  next
    case (far r)
    with h show ?thesis by (auto simp: fsync_pair_dir_def fsync_pair_tag_def)
  qed
  then show "map (\<lambda>c. req_node (fsync_req c)) (fst (fsync_gen_reqs alloc [a, b] default_dir)) =
        (case fsync_pair_axis (fsync_x_dist a b) (fsync_y_dist a b) default_dir
                (fsync_init_req a) (fsync_init_req b)
         of (d, t0, t1) \<Rightarrow> [req_node (fsync_req t0), req_node (fsync_req t1)])"
    unfolding tag m .
qed

theorem fsync_node_first_write_wins_witness:
  "fsync_update_cus_req
     [\<lparr>cu_id = 0, y_pos = 0, x_pos = 0,
       fsync_req = \<lparr>fs_req_aggr = 1, fs_req_id = 0, req_node = h_fs_node\<rparr>\<rparr>]
     [0] v_fs_dir hv_fs_node True =
     [\<lparr>cu_id = 0, y_pos = 0, x_pos = 0,
       fsync_req = \<lparr>fs_req_aggr = 3, fs_req_id = 0, req_node = h_fs_node\<rparr>\<rparr>] \<and>
   list_all2 fsync_req_kept
     [\<lparr>cu_id = 0, y_pos = 0, x_pos = 0,
       fsync_req = \<lparr>fs_req_aggr = 1, fs_req_id = 0, req_node = h_fs_node\<rparr>\<rparr>]
     (fsync_update_cus_req
       [\<lparr>cu_id = 0, y_pos = 0, x_pos = 0,
         fsync_req = \<lparr>fs_req_aggr = 1, fs_req_id = 0, req_node = h_fs_node\<rparr>\<rparr>]
       [0] v_fs_dir hv_fs_node True) \<and>
   list_all2 fsync_req_kept
     [\<lparr>cu_id = 0, y_pos = 0, x_pos = 0,
       fsync_req = \<lparr>fs_req_aggr = 1, fs_req_id = 0, req_node = h_fs_node\<rparr>\<rparr>]
     (fst (fsync_partition_subtree alloc_ok 0
       [\<lparr>cu_id = 0, y_pos = 0, x_pos = 0,
         fsync_req = \<lparr>fs_req_aggr = 1, fs_req_id = 0, req_node = h_fs_node\<rparr>\<rparr>]
       [0] v_fs_dir FSYNC_DEFAULT_TH hv_fs_node)) \<and>
   fsync_x_dist (test_cu 0 0 0) (test_cu 2 0 2) + fsync_y_dist (test_cu 0 0 0) (test_cu 2 0 2) \<noteq> 0 \<and>
   fsync_x_dist (test_cu 0 0 0) (test_cu 2 0 2) \<noteq> fsync_y_dist (test_cu 0 0 0) (test_cu 2 0 2) \<and>
   map (\<lambda>c. req_node (fsync_req c))
       (fst (fsync_gen_reqs alloc_ok [test_cu 0 0 0, test_cu 2 0 2] v_fs_dir)) =
     [h_fs_node, h_fs_node]"
proof -
  have d: "fsync_x_dist (test_cu 0 0 0) (test_cu 2 0 2) + fsync_y_dist (test_cu 0 0 0) (test_cu 2 0 2) \<noteq> 0"
          "fsync_x_dist (test_cu 0 0 0) (test_cu 2 0 2) \<noteq> fsync_y_dist (test_cu 0 0 0) (test_cu 2 0 2)"
    by (simp_all add: fsync_x_dist_def fsync_y_dist_def abs_diff_def test_cu_def)
  have u: "fsync_update_cus_req
     [\<lparr>cu_id = 0, y_pos = 0, x_pos = 0,
       fsync_req = \<lparr>fs_req_aggr = 1, fs_req_id = 0, req_node = h_fs_node\<rparr>\<rparr>]
     [0] v_fs_dir hv_fs_node True =
     [\<lparr>cu_id = 0, y_pos = 0, x_pos = 0,
       fsync_req = \<lparr>fs_req_aggr = 3, fs_req_id = 0, req_node = h_fs_node\<rparr>\<rparr>]"
    by code_simp
  have t: "(case fsync_pair_axis (fsync_x_dist (test_cu 0 0 0) (test_cu 2 0 2))
                  (fsync_y_dist (test_cu 0 0 0) (test_cu 2 0 2)) v_fs_dir
                  (fsync_init_req (test_cu 0 0 0)) (fsync_init_req (test_cu 2 0 2))
           of (d, t0, t1) \<Rightarrow> [req_node (fsync_req t0), req_node (fsync_req t1)])
          = [h_fs_node, h_fs_node]"
    by code_simp
  from fsync_node_first_write_wins
    [of "[\<lparr>cu_id = 0, y_pos = 0, x_pos = 0,
           fsync_req = \<lparr>fs_req_aggr = 1, fs_req_id = 0, req_node = h_fs_node\<rparr>\<rparr>]"
        "[0]" v_fs_dir hv_fs_node True alloc_ok 0 FSYNC_DEFAULT_TH
        "test_cu 0 0 0" "test_cu 2 0 2" v_fs_dir]
    d u
  show ?thesis unfolding t by blast
qed

end
